theory Spec2Isabelle
  imports Main "HOL-Library.Sublist"
begin

section \<open>Strings and the string library\<close>

text \<open>
  A Go \<open>string\<close> is a sequence of bytes; it is modelled as \<^typ>\<open>string\<close>
  (a list of 8-bit characters).  The functions of this section model the library
  functions the program calls on strings, at the arguments the program uses.
\<close>

text \<open>
  \<open>strings.Replace(s, old, new, 1)\<close>: the first (leftmost) occurrence of \<open>old\<close> in
  \<open>s\<close> is replaced by \<open>new\<close>; a string without occurrence is returned as it is.  The
  empty \<open>old\<close> occurs at the very beginning of every string.
\<close>

fun strings_Replace1 :: "string \<Rightarrow> string \<Rightarrow> string \<Rightarrow> string" where
  "strings_Replace1 [] old new = (if old = [] then new else [])"
| "strings_Replace1 (c # cs) old new =
     (if prefix old (c # cs) then new @ drop (length old) (c # cs)
      else c # strings_Replace1 cs old new)"

text \<open>\<open>strings.Trim(s, " ")\<close>: leading and trailing space characters (U+0020) are removed.\<close>

definition strings_Trim_space :: "string \<Rightarrow> string" where
  "strings_Trim_space s =
     rev (dropWhile (\<lambda>c. c = CHR '' '') (rev (dropWhile (\<lambda>c. c = CHR '' '') s)))"

text \<open>
  Go's regular expressions and \<open>strings.ToLower\<close> read a string rune by rune.
  \<open>DecodeRune\<close> is \<open>utf8.DecodeRuneInString\<close>: the code point at the head of the
  string and the number of bytes it takes; a byte that does not start a well-formed
  UTF-8 sequence is read as \<open>RuneError\<close> of width 1.
\<close>

definition RuneError :: nat where
  "RuneError = 0xFFFD"

definition byte :: "char \<Rightarrow> nat" where
  "byte c = of_char c"

fun DecodeRune :: "string \<Rightarrow> nat \<times> nat" where
  "DecodeRune [] = (RuneError, 0)"
| "DecodeRune (c0 # cs) =
     (let s0 = byte c0 in
      if s0 < 0x80 then (s0, 1)
      else if s0 < 0xC2 \<or> 0xF4 < s0 then (RuneError, 1)
      else
        let sz = (if s0 < 0xE0 then 2 else if s0 < 0xF0 then 3 else (4::nat));
            lo = (if s0 = 0xE0 then 0xA0 else if s0 = 0xF0 then 0x90 else 0x80);
            hi = (if s0 = 0xED then 0x9F else if s0 = 0xF4 then 0x8F else 0xBF)
        in if length (c0 # cs) < sz then (RuneError, 1)
           else
             let s1 = byte (cs ! 0) in
             if s1 < lo \<or> hi < s1 then (RuneError, 1)
             else if sz \<le> 2 then ((s0 mod 0x20) * 0x40 + s1 mod 0x40, 2)
             else
               let s2 = byte (cs ! 1) in
               if s2 < 0x80 \<or> 0xBF < s2 then (RuneError, 1)
               else if sz \<le> 3
                 then ((s0 mod 0x10) * 0x1000 + (s1 mod 0x40) * 0x40 + s2 mod 0x40, 3)
               else
                 let s3 = byte (cs ! 2) in
                 if s3 < 0x80 \<or> 0xBF < s3 then (RuneError, 1)
                 else ((s0 mod 8) * 0x40000 + (s1 mod 0x40) * 0x1000
                         + (s2 mod 0x40) * 0x40 + s3 mod 0x40, 4))"

text \<open>\<open>EncodeRune\<close> is \<open>utf8.AppendRune\<close>: surrogates and values beyond U+10FFFF are
  written as \<open>RuneError\<close>.\<close>

definition EncodeRune :: "nat \<Rightarrow> string" where
  "EncodeRune r =
     (if r \<le> 0x7F then [char_of r]
      else if r \<le> 0x7FF then [char_of (0xC0 + r div 0x40), char_of (0x80 + r mod 0x40)]
      else if 0x10FFFF < r \<or> (0xD800 \<le> r \<and> r \<le> 0xDFFF)
        then [char_of (0xEF::nat), char_of (0xBF::nat), char_of (0xBD::nat)]
      else if r \<le> 0xFFFF
        then [char_of (0xE0 + r div 0x1000), char_of (0x80 + (r div 0x40) mod 0x40),
              char_of (0x80 + r mod 0x40)]
      else [char_of (0xF0 + r div 0x40000), char_of (0x80 + (r div 0x1000) mod 0x40),
            char_of (0x80 + (r div 0x40) mod 0x40), char_of (0x80 + r mod 0x40)])"

text \<open>\<open>forRunes f s\<close> walks \<open>s\<close> rune by rune, as Go's \<open>for _, c := range s\<close> does, and
  concatenates what \<open>f\<close> writes for each rune.\<close>

fun forRunes :: "(nat \<Rightarrow> string) \<Rightarrow> string \<Rightarrow> string" where
  "forRunes f [] = []"
| "forRunes f (c # cs) =
     (let (r, w) = DecodeRune (c # cs) in f r @ forRunes f (drop (w - 1) cs))"

text \<open>
  \<open>unicode.ToLower\<close>: in the ASCII range only \<open>A\<close>..\<open>Z\<close> change; beyond it the
  Unicode case tables decide, which are a parameter \<open>tbl\<close> of the model.
  \<open>strings.ToLower\<close> maps \<open>unicode.ToLower\<close> over the runes of the string.
\<close>

definition unicode_ToLower :: "(nat \<Rightarrow> nat) \<Rightarrow> nat \<Rightarrow> nat" where
  "unicode_ToLower tbl r =
     (if r \<le> 0x7F then (if 0x41 \<le> r \<and> r \<le> 0x5A then r + 0x20 else r) else tbl r)"

definition strings_ToLower :: "(nat \<Rightarrow> nat) \<Rightarrow> string \<Rightarrow> string" where
  "strings_ToLower tbl s = forRunes (\<lambda>r. EncodeRune (unicode_ToLower tbl r)) s"

text \<open>The class \<open>[\w\.]\<close> of Go's regular expressions: \<open>[0-9A-Za-z_]\<close> and the dot.\<close>

definition word_or_dot :: "nat \<Rightarrow> bool" where
  "word_or_dot r =
     ((0x30 \<le> r \<and> r \<le> 0x39) \<or> (0x41 \<le> r \<and> r \<le> 0x5A) \<or> (0x61 \<le> r \<and> r \<le> 0x7A)
      \<or> r = 0x5F \<or> r = 0x2E)"

text \<open>\<open>regexp.MustCompile(`[^\w\.]`).ReplaceAllString(s, "_")\<close>: every rune outside the
  class becomes one underscore.\<close>

definition ReplaceAll_nonword :: "string \<Rightarrow> string" where
  "ReplaceAll_nonword s = forRunes (\<lambda>r. if word_or_dot r then [char_of r] else ''_'') s"

text \<open>\<open>filepath.Ext\<close>: the suffix of the last path element that starts at its last dot,
  empty when that element has no dot.\<close>

fun Ext_rev :: "string \<Rightarrow> string \<Rightarrow> string" where
  "Ext_rev [] acc = []"
| "Ext_rev (c # cs) acc =
     (if c = CHR ''/'' then []
      else if c = CHR ''.'' then c # acc
      else Ext_rev cs (c # acc))"

definition filepath_Ext :: "string \<Rightarrow> string" where
  "filepath_Ext path = Ext_rev (rev path) []"

text \<open>\<open>filepath.Base\<close>: the last element of the path, after removing trailing slashes.\<close>

definition filepath_Base :: "string \<Rightarrow> string" where
  "filepath_Base path =
     (if path = [] then ''.''
      else
        let p1 = rev (dropWhile (\<lambda>c. c = CHR ''/'') (rev path));
            p2 = rev (takeWhile (\<lambda>c. c \<noteq> CHR ''/'') (rev p1))
        in if p2 = [] then ''/'' else p2)"

text \<open>
  \<open>filepath.Clean\<close> (Unix): the path is read element by element; empty elements and
  \<open>.\<close> are dropped, \<open>..\<close> removes the element before it (or stays, at the start of a
  path that is not rooted), and the elements that remain are joined by single slashes.
\<close>

fun split_slash :: "string \<Rightarrow> string list" where
  "split_slash [] = [[]]"
| "split_slash (c # cs) =
     (if c = CHR ''/'' then [] # split_slash cs
      else (case split_slash cs of [] \<Rightarrow> [[c]] | e # es \<Rightarrow> (c # e) # es))"

fun clean_elems :: "bool \<Rightarrow> string list \<Rightarrow> string list \<Rightarrow> string list" where
  "clean_elems rooted [] out = rev out"
| "clean_elems rooted (e # es) out =
     (if e = [] \<or> e = ''.'' then clean_elems rooted es out
      else if e = ''..'' then
        (case out of
           [] \<Rightarrow> clean_elems rooted es (if rooted then [] else [''..''])
         | e' # rest \<Rightarrow>
             if e' = ''..'' then clean_elems rooted es (''..'' # out)
             else clean_elems rooted es rest)
      else clean_elems rooted es (e # out))"

fun strings_Join_slash :: "string list \<Rightarrow> string" where
  "strings_Join_slash [] = []"
| "strings_Join_slash [e] = e"
| "strings_Join_slash (e # es) = e @ CHR ''/'' # strings_Join_slash es"

definition filepath_Clean :: "string \<Rightarrow> string" where
  "filepath_Clean path =
     (case path of
        [] \<Rightarrow> ''.''
      | c # _ \<Rightarrow>
          let rooted = (c = CHR ''/'');
              out = clean_elems rooted (split_slash path) []
          in if rooted then CHR ''/'' # strings_Join_slash out
             else if out = [] then ''.''
             else strings_Join_slash out)"

text \<open>\<open>filepath.Join\<close>: leading empty elements are ignored, the rest is joined by slashes
  and cleaned; the result is empty when every element is.\<close>

definition filepath_Join :: "string list \<Rightarrow> string" where
  "filepath_Join elem =
     (case dropWhile (\<lambda>e. e = []) elem of
        [] \<Rightarrow> []
      | es \<Rightarrow> filepath_Clean (strings_Join_slash es))"

section \<open>Regular expressions\<close>

text \<open>
  The program's patterns are sequences of single characters, character classes, starred
  classes (greedy \<open>x*\<close>, reluctant \<open>x*?\<close>), one optional character and one capture
  group.  Go's \<open>regexp\<close> returns the leftmost match and, among the matches that start
  there, the one a backtracking search finds first; \<open>run\<close> is that search.  It returns
  the text of the capture group and what follows the match.
\<close>

datatype cset = Among "char list" | Except "char list"

fun in_cset :: "cset \<Rightarrow> char \<Rightarrow> bool" where
  "in_cset (Among cs) c = (c \<in> set cs)"
| "in_cset (Except cs) c = (c \<notin> set cs)"

datatype item = One cset | Opt cset | Star cset | Lazy cset | GroupOpen | GroupClose

function run :: "item list \<Rightarrow> string \<Rightarrow> bool \<Rightarrow> string \<Rightarrow> (string \<times> string) option" where
  "run [] s g cap = Some (rev cap, s)"
| "run (GroupOpen # is) s g cap = run is s True []"
| "run (GroupClose # is) s g cap = run is s False cap"
| "run (One k # is) s g cap =
     (case s of
        [] \<Rightarrow> None
      | c # cs \<Rightarrow> if in_cset k c then run is cs g (if g then c # cap else cap) else None)"
| "run (Opt k # is) s g cap =
     (case (case s of
              [] \<Rightarrow> None
            | c # cs \<Rightarrow> if in_cset k c then run is cs g (if g then c # cap else cap) else None) of
        Some r \<Rightarrow> Some r
      | None \<Rightarrow> run is s g cap)"
| "run (Star k # is) s g cap =
     (case (case s of
              [] \<Rightarrow> None
            | c # cs \<Rightarrow>
                if in_cset k c then run (Star k # is) cs g (if g then c # cap else cap)
                else None) of
        Some r \<Rightarrow> Some r
      | None \<Rightarrow> run is s g cap)"
| "run (Lazy k # is) s g cap =
     (case run is s g cap of
        Some r \<Rightarrow> Some r
      | None \<Rightarrow>
          (case s of
             [] \<Rightarrow> None
           | c # cs \<Rightarrow>
               if in_cset k c then run (Lazy k # is) cs g (if g then c # cap else cap)
               else None))"
  by pat_completeness auto
termination
  by (relation "measure (\<lambda>(is, s, g, cap). length is + length s)") auto

text \<open>
  \<open>FindAllStringSubmatch(s, -1)\<close>, reduced to the text of the capture group of each
  match: the matches are found from left to right and do not overlap.  None of the
  program's patterns matches the empty string, so a match always ends after its start.
\<close>

function FindAllStringSubmatch :: "item list \<Rightarrow> string \<Rightarrow> string list" where
  "FindAllStringSubmatch re [] =
     (case run re [] False [] of None \<Rightarrow> [] | Some (cap, rest) \<Rightarrow> [cap])"
| "FindAllStringSubmatch re (c # cs) =
     (case run re (c # cs) False [] of
        None \<Rightarrow> FindAllStringSubmatch re cs
      | Some (cap, rest) \<Rightarrow>
          cap # (if length rest < length (c # cs) then FindAllStringSubmatch re rest
                 else FindAllStringSubmatch re cs))"
  by pat_completeness auto
termination
  by (relation "measure (\<lambda>(re, s). length s)") auto

definition lit :: "string \<Rightarrow> item list" where
  "lit s = map (\<lambda>c. One (Among [c])) s"

text \<open>\<open>.\<close> is every character but the newline; \<open>\s\<close> is \<open>[\t\n\f\r ]\<close>.\<close>

definition dot :: cset where
  "dot = Except [CHR 0x0A]"

definition space_chars :: "char list" where
  "space_chars = [CHR 0x09, CHR 0x0A, CHR 0x0C, CHR 0x0D, CHR '' '']"

text \<open>\<^verbatim>\<open>!\[.*\]\(\s*(.*?)[\s|\)]\<close>\<close>

definition reMdImg :: "item list" where
  "reMdImg = lit ''!['' @ [Star dot] @ lit ''](''
             @ [Star (Among space_chars), GroupOpen, Lazy dot, GroupClose,
                One (Among (space_chars @ ''|)''))]"

text \<open>\<^verbatim>\<open>{{<\s*figure.*src="(.*?)"\<close>\<close>

definition reScFig :: "item list" where
  "reScFig = lit ''{{<'' @ [Star (Among space_chars)] @ lit ''figure'' @ [Star dot]
             @ lit ''src='' @ [One (Among [CHR 0x22]), GroupOpen, Lazy dot, GroupClose,
                               One (Among [CHR 0x22])]"

text \<open>\<^verbatim>\<open>{{<\s*img.*src="(.*?)"\<close>\<close>

definition reScImg :: "item list" where
  "reScImg = lit ''{{<'' @ [Star (Among space_chars)] @ lit ''img'' @ [Star dot]
             @ lit ''src='' @ [One (Among [CHR 0x22]), GroupOpen, Lazy dot, GroupClose,
                               One (Among [CHR 0x22])]"

text \<open>\<^verbatim>\<open>!\[.*\]\(\s*(https{0,1}://.*?)[\s|\)]\<close>\<close>

definition reRemote :: "item list" where
  "reRemote = lit ''!['' @ [Star dot] @ lit ''](''
              @ [Star (Among space_chars), GroupOpen] @ lit ''http'' @ [Opt (Among ''s'')]
              @ lit ''://'' @ [Lazy dot, GroupClose, One (Among (space_chars @ ''|)''))]"

section \<open>Data model\<close>

record Config =
  Server :: string
  User :: string
  Password :: string
  ImageDir :: string
  PostDir :: string
  DatePathFmt :: string
  BaseURL :: string
  ImagePath :: string
  MaxImgWidth :: nat
  PostFrom :: string

record Image =
  OrigURL :: string
  OrigName :: string
  Name :: string
  Path :: string
  URL :: string
  Data :: string

text \<open>The fields \<open>Path\<close>, \<open>URL\<close> and \<open>Data\<close> of a \<open>Post\<close> carry the prefix \<open>Post\<close>, those
  of \<open>PathParts\<close> the prefix \<open>pp_\<close>, since a field name belongs to one record type.\<close>

record Post =
  Title :: string
  Date :: string
  Type :: string
  File :: string
  PostPath :: string
  PostURL :: string
  PostData :: string

record PathParts =
  pp_Date :: string
  pp_Type :: string

text \<open>The state of the program: its configuration and the working sets of images and
  posts (the IMAP client is outside the pipeline).\<close>

record Mailpost =
  config :: Config
  images :: "Image list"
  posts :: "Post list"

text \<open>The front matter, as \<open>ExtractPostData\<close> declares it.\<close>

record T =
  T_Title :: string
  T_Date :: string
  T_Type :: string

record Response =
  StatusCode :: int
  Body :: string

text \<open>
  What the program asks of its libraries and of the world is a parameter of the model:
  \<^item> \<open>unicode_table\<close>: the lower-case mapping of the code points beyond ASCII;
  \<^item> \<open>time_Parse_Format d layout\<close>: \<open>t, _ := time.Parse("2006-01-02", d)\<close> followed by
    \<open>t.Format(layout)\<close> (an unparsable date formats the zero time);
  \<^item> \<open>os_MkdirAll\<close>, \<open>os_Create\<close>, \<open>io_Copy\<close>: whether the call on this path succeeds;
  \<^item> \<open>image_Decode\<close>: the width of the decoded image, \<open>None\<close> when \<open>image.Decode\<close>
    returns an error (and a nil image);
  \<^item> \<open>http_Get\<close>: the response, \<open>None\<close> when \<open>http.Get\<close> returns an error (and a nil
    response);
  \<^item> \<open>yaml_Unmarshal\<close>: the decoded front matter, \<open>None\<close> when \<open>yaml.Unmarshal\<close>
    returns an error;
  \<^item> \<open>url_Parse_Path\<close>: the \<open>Path\<close> of the parsed URL, \<open>None\<close> when \<open>url.Parse\<close>
    returns an error (and a nil URL).
\<close>

record Lib =
  unicode_table :: "nat \<Rightarrow> nat"
  time_Parse_Format :: "string \<Rightarrow> string \<Rightarrow> string"
  os_MkdirAll :: "string \<Rightarrow> bool"
  os_Create :: "string \<Rightarrow> bool"
  io_Copy :: "string \<Rightarrow> bool"
  image_Decode :: "string \<Rightarrow> nat option"
  http_Get :: "string \<Rightarrow> Response option"
  yaml_Unmarshal :: "string \<Rightarrow> T option"
  url_Parse_Path :: "string \<Rightarrow> string option"

text \<open>What a run leaves behind, in order: log lines, directories, image and post files.\<close>

datatype event =
    Log string
  | Directory string
  | JpegFile string
  | PostFile string string

text \<open>How a run ends early: \<open>log.Fatal\<close> exits the process, a panic crashes it.\<close>

datatype abort = Fatal string | Panic string

type_synonym state = "Mailpost \<times> event list"

text \<open>A \<open>for\<close> loop over a list whose body may end the run, and the sequencing of two
  steps of which the first may end it.\<close>

fun forM :: "'a list \<Rightarrow> ('a \<Rightarrow> 's \<Rightarrow> abort + 's) \<Rightarrow> 's \<Rightarrow> abort + 's" where
  "forM [] f s = Inr s"
| "forM (x # xs) f s = (case f x s of Inl a \<Rightarrow> Inl a | Inr s' \<Rightarrow> forM xs f s')"

fun andThen :: "abort + 'a \<Rightarrow> ('a \<Rightarrow> abort + 'b) \<Rightarrow> abort + 'b" where
  "andThen (Inl a) f = Inl a"
| "andThen (Inr x) f = f x"

section \<open>Path templating\<close>

definition MakeDatePathPart :: "Lib \<Rightarrow> Mailpost \<Rightarrow> string \<Rightarrow> string" where
  "MakeDatePathPart L m dateInfo = time_Parse_Format L dateInfo (DatePathFmt (config m))"

definition MakePathFromTemplate :: "string \<Rightarrow> PathParts \<Rightarrow> string" where
  "MakePathFromTemplate pathTemplate pathData =
     (let t1 = (if pp_Type pathData \<noteq> []
                then strings_Replace1 pathTemplate ''<type>'' (strings_Trim_space (pp_Type pathData))
                else pathTemplate)
      in if pp_Date pathData \<noteq> []
         then strings_Replace1 t1 ''<date>'' (pp_Date pathData)
         else t1)"

definition MakePostPath :: "Lib \<Rightarrow> Mailpost \<Rightarrow> Post \<Rightarrow> event list \<Rightarrow> abort + (string \<times> event list)" where
  "MakePostPath L m postInfo tr =
     (let datePathPart = MakeDatePathPart L m (Date postInfo);
          p1 = strings_Replace1 (PostPath postInfo) ''<type>'' (strings_Trim_space (Type postInfo));
          p2 = strings_Replace1 p1 ''<date>'' datePathPart
      in if os_MkdirAll L p2 then Inr (p2, tr @ [Directory p2])
         else Inl (Fatal ''Couldn't make path''))"

section \<open>File names\<close>

definition SanitizeFilename :: "(nat \<Rightarrow> nat) \<Rightarrow> string \<Rightarrow> string" where
  "SanitizeFilename tbl name = ReplaceAll_nonword (strings_ToLower tbl name)"

text \<open>The character class \<open>[a-z0-9_.]\<close>, in which the claims about file names are
  stated.\<close>

definition class_lower :: "char \<Rightarrow> bool" where
  "class_lower c =
     (let r = byte c
      in (0x30 \<le> r \<and> r \<le> 0x39) \<or> (0x61 \<le> r \<and> r \<le> 0x7A) \<or> r = 0x5F \<or> r = 0x2E)"

section \<open>Collecting images and posts\<close>

definition HasImage :: "string \<Rightarrow> bool" where
  "HasImage contentType = (prefix ''image/jpeg'' contentType \<or> prefix ''image/png'' contentType)"

definition HasText :: "string \<Rightarrow> bool" where
  "HasText contentType =
     (prefix ''text/plain'' contentType \<or> prefix ''multipart/alternative'' contentType)"

definition HasMultipart :: "string \<Rightarrow> bool" where
  "HasMultipart contentType = prefix ''multipart/'' contentType"

definition ExtractImageData :: "Lib \<Rightarrow> Image \<Rightarrow> Mailpost \<Rightarrow> Mailpost" where
  "ExtractImageData L imageInfo m =
     (let name = SanitizeFilename (unicode_table L) (OrigName imageInfo);
          extension = filepath_Ext name;
          stem = take (length name - length extension) name
      in m\<lparr>images := images m @ [imageInfo\<lparr>Name := stem @ ''.jpg''\<rparr>]\<rparr>)"

definition ExtractPostData :: "Lib \<Rightarrow> string \<Rightarrow> state \<Rightarrow> abort + state" where
  "ExtractPostData L post st =
     (case st of (m, tr) \<Rightarrow>
        (case yaml_Unmarshal L post of
           None \<Rightarrow> Inr (m, tr @ [Log ''Couldn't find post title in frontmatter. Skipping...''])
         | Some t \<Rightarrow>
             let postInfo = \<lparr>Title = T_Title t, Date = T_Date t,
                             Type = strings_ToLower (unicode_table L) (T_Type t),
                             File = SanitizeFilename (unicode_table L) (T_Title t) @ ''.md'',
                             PostPath = PostDir (config m), PostURL = [], PostData = post\<rparr>
             in (case MakePostPath L m postInfo tr of
                   Inl a \<Rightarrow> Inl a
                 | Inr (path, tr') \<Rightarrow>
                     Inr (m\<lparr>posts := posts m @ [postInfo\<lparr>PostPath := path\<rparr>]\<rparr>, tr'))))"

text \<open>
  A MIME part as the program reads it: the media type \<open>mime.ParseMediaType\<close> finds in its
  header, the file name of its disposition, and its body under each of the three
  readings the program may choose: the parts a multipart reader finds in it, the bytes a
  base64 decoder reads from it, and its text; the flag says that the reading ended with
  an error.  A multipart reader yields parts until the end of the list (\<open>io.EOF\<close>) or
  until an error.
\<close>

datatype part =
  Part (mediaType: string) (fileName: string) (sub_parts: "next list")
       (base64_body: "string \<times> bool") (raw_body: "string \<times> bool")
and "next" = NextPart part | NextError

function ExtractAttachment :: "Lib \<Rightarrow> next list \<Rightarrow> state \<Rightarrow> abort + state" where
  "ExtractAttachment L [] st = Inr st"
| "ExtractAttachment L (NextError # rest) st = Inl (Fatal ''Error parsing part'')"
| "ExtractAttachment L (NextPart mimePart # rest) st =
     (let contentType = mediaType mimePart in
      if HasMultipart contentType then
        (case ExtractAttachment L (sub_parts mimePart) st of
           Inl a \<Rightarrow> Inl a
         | Inr st' \<Rightarrow> ExtractAttachment L rest st')
      else if HasImage contentType then
        (let imageInfo = \<lparr>OrigURL = [], OrigName = fileName mimePart, Name = [], Path = [],
                          URL = [], Data = fst (base64_body mimePart)\<rparr>
         in ExtractAttachment L rest (ExtractImageData L imageInfo (fst st), snd st))
      else if HasText contentType then
        (if snd (raw_body mimePart) then Inl (Fatal ''Error copying body of post to buffer'')
         else (case ExtractPostData L (fst (raw_body mimePart)) st of
                 Inl a \<Rightarrow> Inl a
               | Inr st' \<Rightarrow> ExtractAttachment L rest st'))
      else ExtractAttachment L rest st)"
  by pat_completeness auto
termination
proof (relation "measure (\<lambda>(L, ps, st). size_list size ps)", goal_cases)
  case (2 L mimePart rest st)
  then show ?case by (cases mimePart) simp
qed auto

section \<open>Materializing an image\<close>

text \<open>
  \<open>SaveImage\<close> sets the path and the public URL of the image from the date of the related
  post, decodes the bytes, and writes the image as a JPEG file.  A decoding error is
  logged with \<open>log.Printf\<close>; the next statement reads the bounds of the image, which is
  nil after an error, so the run panics there.  Resizing, flattening and encoding work on
  the pixels and leave no trace in the model but the file they write.
\<close>

definition SaveImage :: "Lib \<Rightarrow> Mailpost \<Rightarrow> Post \<Rightarrow> Image \<Rightarrow> event list \<Rightarrow> abort + (Image \<times> event list)" where
  "SaveImage L m relatedPost imageInfo tr =
     (let pathData = \<lparr>pp_Date = MakeDatePathPart L m (Date relatedPost), pp_Type = []\<rparr>;
          dir = MakePathFromTemplate (ImageDir (config m)) pathData
      in if \<not> os_MkdirAll L dir then Inl (Fatal ''Couldn't make image path'')
         else
           let img1 = imageInfo\<lparr>Path := filepath_Join [dir, Name imageInfo]\<rparr>;
               img2 = img1\<lparr>URL := filepath_Join [BaseURL (config m), ImagePath (config m),
                                                  pp_Date pathData, Name img1]\<rparr>
           in (case image_Decode L (Data img2) of
                 None \<Rightarrow> Inl (Panic ''nil pointer dereference'')
               | Some width \<Rightarrow>
                   if \<not> os_Create L (Path img2) then Inl (Fatal ''Failed to output image file'')
                   else Inr (img2, tr @ [Directory dir, JpegFile (Path img2),
                                         Log ''Saved image''])))"

section \<open>Remote images\<close>

text \<open>The result of one pass over the addresses of a post says whether the function
  returned from within the loop.\<close>

fun fetch_urls :: "Lib \<Rightarrow> string list \<Rightarrow> state \<Rightarrow> abort + (bool \<times> state)" where
  "fetch_urls L [] st = Inr (False, st)"
| "fetch_urls L (u # us) st =
     (case st of (m, tr) \<Rightarrow>
        (case http_Get L u of
           None \<Rightarrow> Inl (Panic ''nil pointer dereference'')
         | Some reqImg \<Rightarrow>
             if StatusCode reqImg \<noteq> 200 then Inr (True, (m, tr @ [Log u, Log ''Error'']))
             else
               (case url_Parse_Path L u of
                  None \<Rightarrow> Inl (Panic ''nil pointer dereference'')
                | Some path \<Rightarrow>
                    let imageInfo = \<lparr>OrigURL = u, OrigName = filepath_Base path, Name = [],
                                     Path = [], URL = [], Data = Body reqImg\<rparr>
                    in fetch_urls L us (ExtractImageData L imageInfo m, tr @ [Log u]))))"

fun retrieve_posts :: "Lib \<Rightarrow> Post list \<Rightarrow> state \<Rightarrow> abort + state" where
  "retrieve_posts L [] st = Inr st"
| "retrieve_posts L (p # ps) st =
     (case fetch_urls L (FindAllStringSubmatch reRemote (PostData p)) st of
        Inl a \<Rightarrow> Inl a
      | Inr (returned, st') \<Rightarrow> if returned then Inr st' else retrieve_posts L ps st')"

definition RetrieveImages :: "Lib \<Rightarrow> state \<Rightarrow> abort + state" where
  "RetrieveImages L st = retrieve_posts L (posts (fst st)) st"

section \<open>Resolving references\<close>

definition WritePostToFile :: "Lib \<Rightarrow> Post \<Rightarrow> event list \<Rightarrow> abort + event list" where
  "WritePostToFile L postInfo tr =
     (let path = filepath_Join [PostPath postInfo, File postInfo]
      in if \<not> os_Create L path then Inl (Fatal ''Failed to create file'')
         else if \<not> io_Copy L path then Inl (Fatal ''Failed to write post to file'')
         else Inr (tr @ [PostFile path (PostData postInfo), Log ''Saved post'']))"

text \<open>One turn of the innermost loop: image \<open>j\<close> against the locator \<open>loc\<close> captured in
  post \<open>p\<close>.\<close>

definition match_image :: "Lib \<Rightarrow> nat \<Rightarrow> string \<Rightarrow> nat \<Rightarrow> state \<Rightarrow> abort + state" where
  "match_image L p loc j st =
     (case st of (m, tr) \<Rightarrow>
        if OrigName (images m ! j) = loc \<or> OrigURL (images m ! j) = loc then
          (case SaveImage L m (posts m ! p) (images m ! j) tr of
             Inl a \<Rightarrow> Inl a
           | Inr (img, tr') \<Rightarrow>
               let post = posts m ! p;
                   post' = post\<lparr>PostData := strings_Replace1 (PostData post) loc (URL img)\<rparr>
               in Inr (m\<lparr>images := (images m)[j := img], posts := (posts m)[p := post']\<rparr>, tr'))
        else Inr st)"

text \<open>The loop over the captures of one pattern, each against every image.\<close>

definition resolve_matches :: "Lib \<Rightarrow> nat \<Rightarrow> string list \<Rightarrow> state \<Rightarrow> abort + state" where
  "resolve_matches L p locs st =
     forM locs (\<lambda>loc st'. forM [0..<length (images (fst st'))] (match_image L p loc) st') st"

definition resolve_post :: "Lib \<Rightarrow> nat \<Rightarrow> state \<Rightarrow> abort + state" where
  "resolve_post L p st =
     (let body = PostData (posts (fst st) ! p);
          mdImgMatches = FindAllStringSubmatch reMdImg body;
          scFigMatches = FindAllStringSubmatch reScFig body;
          scImgMatches = FindAllStringSubmatch reScImg body
      in andThen (resolve_matches L p mdImgMatches st) (\<lambda>st1.
         andThen (resolve_matches L p scFigMatches st1) (\<lambda>st2.
         andThen (resolve_matches L p scImgMatches st2) (\<lambda>st3.
         andThen (WritePostToFile L (posts (fst st3) ! p) (snd st3)) (\<lambda>tr.
         Inr (fst st3, tr))))))"

definition ReplaceImageRefs :: "Lib \<Rightarrow> state \<Rightarrow> abort + state" where
  "ReplaceImageRefs L st = forM [0..<length (posts (fst st))] (resolve_post L) st"


section \<open>An example environment\<close>

text \<open>
  A concrete environment for the examples: every directory and file can be written; the
  date layout is \<open>2006/01\<close>, for which a date \<open>YYYY-MM-DD\<close> is formatted as \<open>YYYY/MM\<close>;
  an empty byte sequence is not an image, the other images decode; the address
  \<open>http://x.org/missing.png\<close> answers 404, every other address 200; the text
  \<open>date: 2015-06-01\<close> is front matter without a title, and the text \<open>title: [\<close> is not
  YAML.
\<close>

definition example_unmarshal :: "string \<Rightarrow> T option" where
  "example_unmarshal s =
     (if s = ''date: 2015-06-01''
        then Some \<lparr>T_Title = [], T_Date = ''2015-06-01'', T_Type = []\<rparr>
      else if s = ''title: [''
        then None
      else Some \<lparr>T_Title = ''Apples'', T_Date = ''2015-06-01'', T_Type = ''Note''\<rparr>)"

definition example_lib :: Lib where
  "example_lib =
     \<lparr>unicode_table = (\<lambda>r. r),
      time_Parse_Format = (\<lambda>d layout. take 4 d @ ''/'' @ take 2 (drop 5 d)),
      os_MkdirAll = (\<lambda>path. True),
      os_Create = (\<lambda>path. True),
      io_Copy = (\<lambda>path. True),
      image_Decode = (\<lambda>data. if data = [] then None else Some 640),
      http_Get = (\<lambda>u. if u = ''http://x.org/missing.png''
                        then Some \<lparr>StatusCode = 404, Body = []\<rparr>
                        else Some \<lparr>StatusCode = 200, Body = ''PNG''\<rparr>),
      yaml_Unmarshal = example_unmarshal,
      url_Parse_Path = (\<lambda>u. Some (dropWhile (\<lambda>c. c \<noteq> CHR ''/'') (drop 8 u)))\<rparr>"

definition example_config :: Config where
  "example_config =
     \<lparr>Server = ''imap.example.com:993'', User = ''blog'', Password = ''secret'',
      ImageDir = ''/site/static/<type>/<date>'', PostDir = ''/site/content/<type>/<date>'',
      DatePathFmt = ''2006/01'', BaseURL = ''http://example.com'', ImagePath = ''media'',
      MaxImgWidth = 800, PostFrom = []\<rparr>"

definition example_image :: "string \<Rightarrow> Image" where
  "example_image data =
     \<lparr>OrigURL = [], OrigName = ''Apple.JPG'', Name = ''apple.jpg'', Path = [], URL = [],
      Data = data\<rparr>"

definition example_post :: "string \<Rightarrow> string \<Rightarrow> Post" where
  "example_post date body =
     \<lparr>Title = ''Apples'', Date = date, Type = ''note'', File = ''apples.md'',
      PostPath = ''/site/content/note/'' @ take 4 date @ ''/'' @ take 2 (drop 5 date),
      PostURL = [], PostData = body\<rparr>"

definition example_state :: "Image list \<Rightarrow> Post list \<Rightarrow> state" where
  "example_state is ps = (\<lparr>config = example_config, images = is, posts = ps\<rparr>, [])"

section \<open>Properties of the string library\<close>

lemma strings_Replace1_absent:
  "\<not> sublist old s \<Longrightarrow> strings_Replace1 s old new = s"
proof (induction s)
  case Nil
  then show ?case by (cases old) auto
next
  case (Cons c cs)
  then show ?case by (auto simp: sublist_Cons_right)
qed

lemma strings_Replace1_first:
  assumes "sublist old s"
  shows "\<exists>pre suf. s = pre @ old @ suf
           \<and> (\<forall>pre' suf'. s = pre' @ old @ suf' \<longrightarrow> length pre \<le> length pre')
           \<and> strings_Replace1 s old new = pre @ new @ suf"
  using assms
proof (induction s)
  case Nil
  then have "old = []" by simp
  then show ?case by simp
next
  case (Cons c cs)
  show ?case
  proof (cases "prefix old (c # cs)")
    case True
    then obtain suf where suf: "c # cs = old @ suf" by (auto simp: prefix_def)
    then have "drop (length old) (c # cs) = suf" by (metis append_eq_conv_conj)
    moreover from True have "strings_Replace1 (c # cs) old new = new @ drop (length old) (c # cs)"
      by simp
    ultimately have "c # cs = [] @ old @ suf \<and> strings_Replace1 (c # cs) old new = [] @ new @ suf"
      using suf by simp
    then show ?thesis by (metis list.size(3) le0)
  next
    case False
    with Cons.prems have "sublist old cs" by (simp add: sublist_Cons_right)
    from Cons.IH[OF this] obtain pre suf where
      ps: "cs = pre @ old @ suf"
      and mn: "\<forall>pre' suf'. cs = pre' @ old @ suf' \<longrightarrow> length pre \<le> length pre'"
      and rp: "strings_Replace1 cs old new = pre @ new @ suf" by blast
    have "length (c # pre) \<le> length pre'" if "c # cs = pre' @ old @ suf'" for pre' suf'
    proof (cases pre')
      case Nil
      with that False show ?thesis by (simp add: prefix_def)
    next
      case (Cons d ds)
      with that have "cs = ds @ old @ suf'" by simp
      with mn have "length pre \<le> length ds" by blast
      with Cons show ?thesis by simp
    qed
    moreover have "c # cs = (c # pre) @ old @ suf" using ps by simp
    moreover have "strings_Replace1 (c # cs) old new = (c # pre) @ new @ suf"
      using False rp by simp
    ultimately show ?thesis by blast
  qed
qed


lemma type_token_not_across_date:
  "prefix ''<type>'' (pre @ ''<date>'' @ suf) \<Longrightarrow> prefix ''<type>'' pre"
  by (auto simp: prefix_append Cons_eq_append_conv)

lemma date_token_not_across_type:
  "prefix ''<date>'' (pre @ ''<type>'' @ suf) \<Longrightarrow> prefix ''<date>'' pre"
  by (auto simp: prefix_append Cons_eq_append_conv)

lemma type_token_beside_date:
  "sublist ''<type>'' (pre @ ''<date>'' @ suf) \<Longrightarrow> sublist ''<type>'' pre \<or> sublist ''<type>'' suf"
proof (induction pre)
  case Nil
  then show ?case by (simp add: sublist_Cons_right)
next
  case (Cons c pre)
  from Cons.prems have "prefix ''<type>'' ((c # pre) @ ''<date>'' @ suf) \<or> sublist ''<type>'' (pre @ ''<date>'' @ suf)"
    by (simp add: sublist_Cons_right)
  then show ?case
  proof
    assume "prefix ''<type>'' ((c # pre) @ ''<date>'' @ suf)"
    then have "prefix ''<type>'' (c # pre)" by (rule type_token_not_across_date)
    then show ?thesis by (metis prefix_imp_sublist)
  next
    assume "sublist ''<type>'' (pre @ ''<date>'' @ suf)"
    with Cons.IH show ?thesis by (auto simp: sublist_Cons_right)
  qed
qed

lemma date_token_beside_type:
  "sublist ''<date>'' (pre @ ''<type>'' @ suf) \<Longrightarrow> sublist ''<date>'' pre \<or> sublist ''<date>'' suf"
proof (induction pre)
  case Nil
  then show ?case by (simp add: sublist_Cons_right)
next
  case (Cons c pre)
  from Cons.prems have "prefix ''<date>'' ((c # pre) @ ''<type>'' @ suf) \<or> sublist ''<date>'' (pre @ ''<type>'' @ suf)"
    by (simp add: sublist_Cons_right)
  then show ?case
  proof
    assume "prefix ''<date>'' ((c # pre) @ ''<type>'' @ suf)"
    then have "prefix ''<date>'' (c # pre)" by (rule date_token_not_across_type)
    then show ?thesis by (metis prefix_imp_sublist)
  next
    assume "sublist ''<date>'' (pre @ ''<type>'' @ suf)"
    with Cons.IH show ?thesis by (auto simp: sublist_Cons_right)
  qed
qed

lemma type_token_survives_date:
  assumes "sublist ''<type>'' s"
  shows "sublist ''<type>'' (strings_Replace1 s ''<date>'' new)"
proof (cases "sublist ''<date>'' s")
  case False
  with assms show ?thesis by (simp add: strings_Replace1_absent)
next
  case True
  from strings_Replace1_first[OF this, of new] obtain pre suf where
    s: "s = pre @ ''<date>'' @ suf" and r: "strings_Replace1 s ''<date>'' new = pre @ new @ suf"
    by blast
  from assms s have "sublist ''<type>'' pre \<or> sublist ''<type>'' suf"
    using type_token_beside_date by blast
  then show ?thesis unfolding r by (auto simp: sublist_append)
qed

lemma date_token_survives_type:
  assumes "sublist ''<date>'' s"
  shows "sublist ''<date>'' (strings_Replace1 s ''<type>'' new)"
proof (cases "sublist ''<type>'' s")
  case False
  with assms show ?thesis by (simp add: strings_Replace1_absent)
next
  case True
  from strings_Replace1_first[OF this, of new] obtain pre suf where
    s: "s = pre @ ''<type>'' @ suf" and r: "strings_Replace1 s ''<type>'' new = pre @ new @ suf"
    by blast
  from assms s have "sublist ''<date>'' pre \<or> sublist ''<date>'' suf"
    using date_token_beside_type by blast
  then show ?thesis unfolding r by (auto simp: sublist_append)
qed

section \<open>Properties of runes and file names\<close>

lemma mod_window:
  fixes n a q :: nat
  assumes "a * q \<le> n" and "n < a * q + a"
  shows "n mod a = n - a * q"
proof -
  have "n = q * a + (n - a * q)" using assms by (simp add: mult.commute)
  then have "n mod a = (q * a + (n - a * q)) mod a" by simp
  also have "\<dots> = (n - a * q) mod a" by (rule mod_mult_self3)
  also have "\<dots> = n - a * q" using assms by simp
  finally show ?thesis .
qed

lemma m2: "0xC2 \<le> n \<Longrightarrow> n < 0xE0 \<Longrightarrow> 2 \<le> n mod 0x20" for n :: nat
  using mod_window[of "0x20" 6 n] by simp
lemma m3: "0xE1 \<le> n \<Longrightarrow> n < 0xF0 \<Longrightarrow> 1 \<le> n mod 0x10" for n :: nat
  using mod_window[of "0x10" 14 n] by simp
lemma m3': "0xA0 \<le> j \<Longrightarrow> j \<le> 0xBF \<Longrightarrow> 0x20 \<le> j mod 0x40" for j :: nat
  using mod_window[of "0x40" 2 j] by simp
lemma m4: "0xF1 \<le> n \<Longrightarrow> n \<le> 0xF4 \<Longrightarrow> 1 \<le> n mod 8" for n :: nat
  using mod_window[of 8 30 n] by simp
lemma m4': "0x90 \<le> j \<Longrightarrow> j \<le> 0xBF \<Longrightarrow> 0x10 \<le> j mod 0x40" for j :: nat
  using mod_window[of "0x40" 2 j] by simp

lemma DecodeRune_small:
  assumes "fst (DecodeRune (c # cs)) < 0x80"
  shows "DecodeRune (c # cs) = (byte c, 1)"
proof (cases "byte c < 0x80")
  case True
  then show ?thesis by simp
next
  case False
  define s0 where "s0 = byte c"
  define s1 where "s1 = byte (cs ! 0)"
  have big: "\<not> s0 < 0x80" using False by (simp add: s0_def)
  have two: "0x80 \<le> (s0 mod 0x20) * 0x40 + k" if "0xC2 \<le> s0" "s0 < 0xE0" for k
    using m2[OF that] by simp
  have three: "0x80 \<le> (s0 mod 0x10) * 0x1000 + k" if "0xE1 \<le> s0" "s0 < 0xF0" for k
    using m3[OF that] by simp
  have three': "0x80 \<le> i + (s1 mod 0x40) * 0x40 + k" if "0xA0 \<le> s1" "s1 \<le> 0xBF" for i k
    using m3'[OF that] by simp
  have four: "0x80 \<le> (s0 mod 8) * 0x40000 + k" if "0xF1 \<le> s0" "s0 \<le> 0xF4" for k
    using m4[OF that] by simp
  have four': "0x80 \<le> (s1 mod 0x40) * 0x1000 + k + l" if "0x90 \<le> s1" "s1 \<le> 0xBF" for k l
    using m4'[OF that] by simp
  have "0x80 \<le> fst (DecodeRune (c # cs))"
  proof (cases "s0 < 0xC2 \<or> 0xF4 < s0")
    case True
    with big show ?thesis by (auto simp: s0_def[symmetric] RuneError_def Let_def)
  next
    case inr: False
    consider (a) "s0 < 0xE0" | (b) "s0 = 0xE0" | (c) "0xE1 \<le> s0" "s0 < 0xF0" | (d) "s0 = 0xF0" | (e) "0xF1 \<le> s0"
      by linarith
    then show ?thesis
    proof cases
      case a
      with inr big two[of "s1 mod 0x40"] show ?thesis
        by (simp add: s0_def[symmetric] s1_def[symmetric] RuneError_def Let_def)
    next
      case b
      with three'[of 0 "byte (cs ! 1) mod 0x40"] show ?thesis
        by (simp add: s0_def[symmetric] s1_def[symmetric] RuneError_def Let_def)
    next
      case c
      with inr big three[of "(s1 mod 0x40) * 0x40 + byte (cs ! 1) mod 0x40"] show ?thesis
        by (simp add: s0_def[symmetric] s1_def[symmetric] RuneError_def Let_def)
    next
      case d
      with four'[of "(byte (cs ! 1) mod 0x40) * 0x40" "byte (cs ! 2) mod 0x40"] show ?thesis
        by (simp add: s0_def[symmetric] s1_def[symmetric] RuneError_def Let_def)
    next
      case e
      with inr big four[of "(s1 mod 0x40) * 0x1000 + (byte (cs ! 1) mod 0x40) * 0x40 + byte (cs ! 2) mod 0x40"] show ?thesis
        by (simp add: s0_def[symmetric] s1_def[symmetric] RuneError_def Let_def)
    qed
  qed
  with assms show ?thesis by simp
qed


lemma byte_char_of: "n < 256 \<Longrightarrow> byte (char_of n) = n" for n :: nat
  by (simp add: byte_def)

lemma char_of_byte: "char_of (byte c) = c"
  by (simp add: byte_def)

lemma ReplaceAll_nonword_chars:
  "c \<in> set (ReplaceAll_nonword s) \<Longrightarrow> word_or_dot (byte c) \<and> (c = CHR ''_'' \<or> c \<in> set s)"
  unfolding ReplaceAll_nonword_def
proof (induction "\<lambda>r. if word_or_dot r then [char_of r] else ''_''" s rule: forRunes.induct)
  case 1
  then show ?case by simp
next
  case (2 d ds)
  obtain r w where rw: "DecodeRune (d # ds) = (r, w)" by (cases "DecodeRune (d # ds)")
  from "2.prems" rw
  consider (hd) "c \<in> set (if word_or_dot r then [char_of r] else ''_'')"
    | (tl) "c \<in> set (forRunes (\<lambda>r. if word_or_dot r then [char_of r] else ''_'') (drop (w - 1) ds))"
    by auto
  then show ?case
  proof cases
    case hd
    show ?thesis
    proof (cases "word_or_dot r")
      case True
      then have "r < 0x80" by (auto simp: word_or_dot_def)
      with rw DecodeRune_small[of d ds] have "r = byte d" by simp
      with True hd show ?thesis by (simp add: char_of_byte)
    next
      case False
      with hd have "c = CHR ''_''" by simp
      then show ?thesis by (simp add: word_or_dot_def byte_def)
    qed
  next
    case tl
    from "2.hyps"[OF rw[symmetric] refl tl] show ?thesis
      by (auto dest: in_set_dropD)
  qed
qed

lemma EncodeRune_bytes:
  assumes "c \<in> set (EncodeRune x)"
  shows "(x \<le> 0x7F \<and> byte c = x) \<or> 0x80 \<le> byte c"
proof -
  have d2: "x \<le> 0x7FF \<Longrightarrow> x div 0x40 < 0x20"
    by (rule less_mult_imp_div_less) simp
  have d3: "x \<le> 0xFFFF \<Longrightarrow> x div 0x1000 < 0x10"
    by (rule less_mult_imp_div_less) simp
  have d4: "x \<le> 0x10FFFF \<Longrightarrow> x div 0x40000 < 5"
    by (rule less_mult_imp_div_less) simp
  have m: "k mod 0x40 < 0x40" for k :: nat by simp
  have cont: "byte (char_of (0x80 + k mod 0x40)) = 0x80 + k mod 0x40" for k :: nat
    using m[of k] by (intro byte_char_of) linarith
  show ?thesis
  proof (cases "x \<le> 0x7F")
    case True
    with assms show ?thesis by (simp add: EncodeRune_def byte_char_of)
  next
    case big: False
    have "0x80 \<le> byte c"
    proof (cases "x \<le> 0x7FF")
      case True
      with d2 have "byte (char_of (0xC0 + x div 0x40)) = 0xC0 + x div 0x40"
        by (intro byte_char_of) linarith
      with assms big True cont[of x] show ?thesis by (auto simp: EncodeRune_def)
    next
      case b2: False
      show ?thesis
      proof (cases "0x10FFFF < x \<or> (0xD800 \<le> x \<and> x \<le> 0xDFFF)")
        case True
        with assms big b2 show ?thesis by (auto simp: EncodeRune_def byte_def)
      next
        case ok: False
        show ?thesis
        proof (cases "x \<le> 0xFFFF")
          case True
          with d3 have "byte (char_of (0xE0 + x div 0x1000)) = 0xE0 + x div 0x1000"
            by (intro byte_char_of) linarith
          with assms big b2 ok True cont[of x] cont[of "x div 0x40"] show ?thesis
            by (auto simp: EncodeRune_def)
        next
          case False
          from ok d4 have "byte (char_of (0xF0 + x div 0x40000)) = 0xF0 + x div 0x40000"
            by (intro byte_char_of) linarith
          with assms big b2 ok False cont[of x] cont[of "x div 0x40"] cont[of "x div 0x1000"]
          show ?thesis by (auto simp: EncodeRune_def)
        qed
      qed
    qed
    then show ?thesis ..
  qed
qed

lemma strings_ToLower_no_upper:
  assumes tbl: "\<forall>r. 0x7F < r \<longrightarrow> \<not> (0x41 \<le> tbl r \<and> tbl r \<le> 0x5A)"
  shows "c \<in> set (strings_ToLower tbl s) \<Longrightarrow> \<not> (0x41 \<le> byte c \<and> byte c \<le> 0x5A)"
  unfolding strings_ToLower_def
proof (induction "\<lambda>r. EncodeRune (unicode_ToLower tbl r)" s rule: forRunes.induct)
  case 1
  then show ?case by simp
next
  case (2 d ds)
  obtain r w where rw: "DecodeRune (d # ds) = (r, w)" by (cases "DecodeRune (d # ds)")
  from "2.prems" rw
  consider (hd) "c \<in> set (EncodeRune (unicode_ToLower tbl r))"
    | (tl) "c \<in> set (forRunes (\<lambda>r. EncodeRune (unicode_ToLower tbl r)) (drop (w - 1) ds))"
    by auto
  then show ?case
  proof cases
    case hd
    have "\<not> (0x41 \<le> unicode_ToLower tbl r \<and> unicode_ToLower tbl r \<le> 0x5A)"
      using tbl by (auto simp: unicode_ToLower_def)
    with EncodeRune_bytes[OF hd] show ?thesis by auto
  next
    case tl
    from "2.hyps"[OF rw[symmetric] refl tl] show ?thesis .
  qed
qed

lemma SanitizeFilename_chars:
  assumes "\<forall>r. 0x7F < r \<longrightarrow> \<not> (0x41 \<le> tbl r \<and> tbl r \<le> 0x5A)"
  shows "list_all class_lower (SanitizeFilename tbl x)"
proof -
  have "class_lower c" if "c \<in> set (SanitizeFilename tbl x)" for c
  proof -
    from that ReplaceAll_nonword_chars[of c "strings_ToLower tbl x"]
    have w: "word_or_dot (byte c)" and o: "c = CHR ''_'' \<or> c \<in> set (strings_ToLower tbl x)"
      by (simp_all add: SanitizeFilename_def)
    from o have "\<not> (0x41 \<le> byte c \<and> byte c \<le> 0x5A)"
      using strings_ToLower_no_upper[OF assms] by (auto simp: byte_def)
    with w show ?thesis by (auto simp: class_lower_def word_or_dot_def Let_def)
  qed
  then show ?thesis by (simp add: list_all_iff)
qed

lemma lower_class_fixed:
  "list_all class_lower y \<Longrightarrow> strings_ToLower tbl y = y \<and> ReplaceAll_nonword y = y"
proof (induction y)
  case Nil
  then show ?case by (simp add: strings_ToLower_def ReplaceAll_nonword_def)
next
  case (Cons c cs)
  then have c: "class_lower c" and ih: "strings_ToLower tbl cs = cs" "ReplaceAll_nonword cs = cs"
    by simp_all
  from c have a: "byte c < 0x80" by (auto simp: class_lower_def Let_def)
  from c have l: "unicode_ToLower tbl (byte c) = byte c"
    by (auto simp: class_lower_def Let_def unicode_ToLower_def)
  from c have w: "word_or_dot (byte c)" by (auto simp: class_lower_def Let_def word_or_dot_def)
  from a have e: "EncodeRune (byte c) = [c]" by (simp add: EncodeRune_def char_of_byte)
  from a l e ih(1) have "strings_ToLower tbl (c # cs) = c # cs"
    by (simp add: strings_ToLower_def)
  moreover from a w ih(2) have "ReplaceAll_nonword (c # cs) = c # cs"
    by (simp add: ReplaceAll_nonword_def char_of_byte)
  ultimately show ?case by simp
qed

lemma forRunes_empty:
  "(\<And>r. f r \<noteq> []) \<Longrightarrow> forRunes f s = [] \<longleftrightarrow> s = []"
  by (cases s) (auto split: prod.splits)

lemma EncodeRune_nonempty: "EncodeRune r \<noteq> []"
  by (simp add: EncodeRune_def)

lemma SanitizeFilename_empty: "SanitizeFilename tbl x = [] \<longleftrightarrow> x = []"
  by (simp add: SanitizeFilename_def ReplaceAll_nonword_def strings_ToLower_def forRunes_empty
      EncodeRune_nonempty)

section \<open>Properties of paths\<close>

lemma split_slash_nonempty: "split_slash s \<noteq> []"
  by (induction s) (simp_all split: list.splits)

lemma split_slash_Cons:
  "split_slash (c # cs) =
     (if c = CHR ''/'' then [] # split_slash cs
      else (c # hd (split_slash cs)) # tl (split_slash cs))"
  using split_slash_nonempty[of cs] by (cases "split_slash cs") simp_all

lemma split_slash_no_slash: "e \<in> set (split_slash s) \<Longrightarrow> CHR ''/'' \<notin> set e"
proof (induction s arbitrary: e)
  case Nil
  then show ?case by simp
next
  case (Cons c cs)
  obtain x xs where sp: "split_slash cs = x # xs"
    using split_slash_nonempty[of cs] by (cases "split_slash cs") auto
  show ?case
  proof (cases "c = CHR ''/''")
    case True
    with Cons.prems have "e = [] \<or> e \<in> set (split_slash cs)" by simp
    with Cons.IH show ?thesis by auto
  next
    case False
    with Cons.prems sp have "e = c # x \<or> e \<in> set xs" by simp
    moreover have "CHR ''/'' \<notin> set x" using Cons.IH[of x] sp by simp
    moreover have "e \<in> set xs \<Longrightarrow> CHR ''/'' \<notin> set e" using Cons.IH[of e] sp by simp
    ultimately show ?thesis using False by auto
  qed
qed


lemma clean_elems_skip:
  "e = [] \<or> e = ''.'' \<Longrightarrow> clean_elems rooted (e # es) out = clean_elems rooted es out"
  by (simp only: clean_elems.simps if_True)

lemma clean_elems_push:
  "e \<noteq> [] \<Longrightarrow> e \<noteq> ''.'' \<Longrightarrow> e \<noteq> ''..'' \<Longrightarrow>
   clean_elems rooted (e # es) out = clean_elems rooted es (e # out)"
  by (simp only: clean_elems.simps simp_thms if_False)

lemma clean_elems_dotdot:
  "clean_elems rooted (''..'' # es) out =
     clean_elems rooted es
       (case out of [] \<Rightarrow> if rooted then [] else [''..'']
        | e' # rest \<Rightarrow> if e' = ''..'' then ''..'' # out else rest)"
proof -
  have a: "\<not> (''..'' = [] \<or> ''..'' = ''.'')" by simp
  show ?thesis
  proof (cases out)
    case Nil
    then show ?thesis by (simp only: clean_elems.simps a if_False if_True refl list.case)
  next
    case (Cons x xs)
    then show ?thesis
      by (cases "x = ''..''") (simp_all only: clean_elems.simps a if_False if_True refl list.case)
  qed
qed

lemma clean_elems_good:
  assumes "\<forall>e \<in> set es. CHR ''/'' \<notin> set e"
    and "\<forall>e \<in> set out. e \<noteq> [] \<and> CHR ''/'' \<notin> set e"
  shows "\<forall>e \<in> set (clean_elems rooted es out). e \<noteq> [] \<and> CHR ''/'' \<notin> set e"
  using assms
proof (induction es arbitrary: out)
  case Nil
  then show ?case by simp
next
  case (Cons e es)
  from Cons.prems have es: "\<forall>e \<in> set es. CHR ''/'' \<notin> set e" and e: "CHR ''/'' \<notin> set e"
    by simp_all
  consider (skip) "e = [] \<or> e = ''.''" | (dd) "e = ''..''"
    | (push) "e \<noteq> []" "e \<noteq> ''.''" "e \<noteq> ''..''" by blast
  then show ?case
  proof cases
    case skip
    then show ?thesis using Cons.IH[OF es Cons.prems(2)] by (simp only: clean_elems_skip)
  next
    case dd
    have "\<forall>x \<in> set (case out of [] \<Rightarrow> if rooted then [] else [''..'']
        | e' # rest \<Rightarrow> if e' = ''..'' then ''..'' # out else rest). x \<noteq> [] \<and> CHR ''/'' \<notin> set x"
      using Cons.prems(2) by (cases out) (simp_all del: clean_elems.simps)
    from Cons.IH[OF es this] show ?thesis unfolding dd by (simp only: clean_elems_dotdot)
  next
    case push
    have "\<forall>x \<in> set (e # out). x \<noteq> [] \<and> CHR ''/'' \<notin> set x"
      using Cons.prems(2) e push(1) by simp
    from Cons.IH[OF es this] show ?thesis by (simp only: clean_elems_push[OF push])
  qed
qed

lemma Join_slash_Cons: "es \<noteq> [] \<Longrightarrow> strings_Join_slash (e # es) = e @ CHR ''/'' # strings_Join_slash es"
  by (cases es) simp_all

lemma double_slash_append:
  "sublist ''//'' (xs @ ys) \<longleftrightarrow>
     sublist ''//'' xs \<or> sublist ''//'' ys
     \<or> (xs \<noteq> [] \<and> last xs = CHR ''/'' \<and> ys \<noteq> [] \<and> hd ys = CHR ''/'')"
proof (induction xs)
  case Nil
  then show ?case by simp
next
  case (Cons x xs)
  show ?case
  proof (cases xs)
    case Nil
    then show ?thesis by (cases ys) (auto simp: sublist_Cons_right)
  next
    case (Cons x' xs')
    with Cons.IH show ?thesis by (auto simp: sublist_Cons_right)
  qed
qed

lemma no_slash_no_double: "CHR ''/'' \<notin> set e \<Longrightarrow> \<not> sublist ''//'' e"
  using set_mono_sublist by fastforce

lemma Join_slash_good:
  assumes "\<forall>e \<in> set es. e \<noteq> [] \<and> CHR ''/'' \<notin> set e"
  shows "\<not> sublist ''//'' (strings_Join_slash es)
         \<and> (es \<noteq> [] \<longrightarrow> strings_Join_slash es \<noteq> [] \<and> hd (strings_Join_slash es) \<noteq> CHR ''/'')"
  using assms
proof (induction es)
  case Nil
  then show ?case by simp
next
  case (Cons e es)
  then have e: "e \<noteq> []" "CHR ''/'' \<notin> set e" by simp_all
  then have he: "hd e \<noteq> CHR ''/''" by (cases e) auto
  show ?case
  proof (cases es)
    case Nil
    with e he show ?thesis by (simp add: no_slash_no_double)
  next
    case (Cons e' es')
    with Cons.IH Cons.prems
    have ih: "\<not> sublist ''//'' (strings_Join_slash es)" "strings_Join_slash es \<noteq> []"
      "hd (strings_Join_slash es) \<noteq> CHR ''/''" by simp_all
    have j: "strings_Join_slash (e # es) = e @ CHR ''/'' # strings_Join_slash es"
      using Cons by (simp add: Join_slash_Cons)
    have "\<not> sublist ''//'' (CHR ''/'' # strings_Join_slash es)"
      using ih by (cases "strings_Join_slash es") (auto simp: sublist_Cons_right)
    moreover have "last e \<noteq> CHR ''/''" using e by (metis last_in_set)
    ultimately have "\<not> sublist ''//'' (e @ CHR ''/'' # strings_Join_slash es)"
      using e by (simp add: double_slash_append no_slash_no_double)
    with j e he show ?thesis by simp
  qed
qed



lemma filepath_Clean_nonempty:
  "path \<noteq> [] \<Longrightarrow>
   filepath_Clean path =
     (if hd path = CHR ''/''
      then CHR ''/'' # strings_Join_slash (clean_elems True (split_slash path) [])
      else if clean_elems False (split_slash path) [] = [] then ''.''
      else strings_Join_slash (clean_elems False (split_slash path) []))"
proof (cases path)
  case Nil
  assume "path \<noteq> []"
  with Nil show ?thesis by simp
next
  case (Cons c cs)
  show ?thesis
  proof (cases "c = CHR ''/''")
    case True
    then show ?thesis
      unfolding filepath_Clean_def Cons list.case list.sel Let_def
      by (simp only: if_True simp_thms)
  next
    case False
    then show ?thesis
      unfolding filepath_Clean_def Cons list.case list.sel Let_def
      by (simp only: if_False simp_thms)
  qed
qed

lemma filepath_Clean_no_double_slash: "\<not> sublist ''//'' (filepath_Clean path)"
proof (cases "path = []")
  case True
  then show ?thesis by (simp add: filepath_Clean_def sublist_Cons_right)
next
  case False
  have good: "\<forall>e \<in> set (clean_elems rooted (split_slash path) []). e \<noteq> [] \<and> CHR ''/'' \<notin> set e"
    for rooted
  proof (rule clean_elems_good)
    show "\<forall>e\<in>set (split_slash path). CHR ''/'' \<notin> set e"
      using split_slash_no_slash by blast
    show "\<forall>e\<in>set []. e \<noteq> [] \<and> CHR ''/'' \<notin> set e" by simp
  qed
  have g: "\<not> sublist ''//'' (strings_Join_slash (clean_elems rooted (split_slash path) []))"
    for rooted
    using Join_slash_good[OF good[of rooted]] by (rule conjunct1)
  have r: "\<not> sublist ''//'' (CHR ''/'' # strings_Join_slash (clean_elems True (split_slash path) []))"
  proof (cases "clean_elems True (split_slash path) [] = []")
    case True
    then show ?thesis by (simp add: sublist_Cons_right del: clean_elems.simps)
  next
    case ne: False
    define J where "J = strings_Join_slash (clean_elems True (split_slash path) [])"
    from Join_slash_good[OF good[of True]] ne
    have "J \<noteq> []" and "hd J \<noteq> CHR ''/''" unfolding J_def by blast+
    moreover have "\<not> sublist ''//'' J" unfolding J_def by (rule g)
    ultimately have "\<not> sublist ''//'' (CHR ''/'' # J)"
      by (cases J) (simp_all add: sublist_Cons_right)
    then show ?thesis unfolding J_def .
  qed
  have d: "\<not> sublist ''//'' ''.''" by (simp add: sublist_Cons_right)
  show ?thesis
    unfolding filepath_Clean_nonempty[OF False] using r g[of False] d by presburger
qed

lemma filepath_Join_no_double_slash: "\<not> sublist ''//'' (filepath_Join elem)"
proof (cases "dropWhile (\<lambda>e. e = []) elem")
  case Nil
  then show ?thesis unfolding filepath_Join_def by (simp only: list.case sublist_Nil_right) simp
next
  case (Cons a as)
  then show ?thesis
    unfolding filepath_Join_def by (simp only: list.case filepath_Clean_no_double_slash simp_thms)
qed

lemma scheme_separator_has_double_slash: "sublist ''://'' s \<Longrightarrow> sublist ''//'' s"
  by (induction s) (auto simp: sublist_Cons_right)


lemma split_slash_append_slash:
  "split_slash (u @ CHR ''/'' # v) = split_slash u @ split_slash v"
proof (induction u)
  case Nil
  show ?case by simp
next
  case (Cons c u)
  have ne: "split_slash u \<noteq> []" by (rule split_slash_nonempty)
  show ?case
  proof (cases "c = CHR ''/''")
    case True
    then show ?thesis using Cons.IH by (simp only: append_Cons split_slash_Cons if_True simp_thms)
  next
    case False
    have "split_slash ((c # u) @ CHR ''/'' # v)
            = (c # hd (split_slash (u @ CHR ''/'' # v))) # tl (split_slash (u @ CHR ''/'' # v))"
      using False by (simp only: append_Cons split_slash_Cons if_False)
    also have "\<dots> = (c # hd (split_slash u)) # tl (split_slash u) @ split_slash v"
      using ne unfolding Cons.IH by (cases "split_slash u") simp_all
    also have "\<dots> = split_slash (c # u) @ split_slash v"
      using False by (simp only: split_slash_Cons if_False append_Cons)
    finally show ?thesis .
  qed
qed

lemma split_slash_single: "CHR ''/'' \<notin> set u \<Longrightarrow> split_slash u = [u]"
proof (induction u)
  case Nil
  show ?case by simp
next
  case (Cons c u)
  then have "c \<noteq> CHR ''/''" and "split_slash u = [u]" by auto
  then show ?case by (simp only: split_slash_Cons if_False list.sel)
qed

lemma split_slash_append_tail:
  assumes "CHR ''/'' \<notin> set v"
  shows "split_slash (a @ v) = butlast (split_slash a) @ [last (split_slash a) @ v]"
proof (induction a)
  case Nil
  from assms show ?case by (simp add: split_slash_single)
next
  case (Cons c a)
  have ne: "split_slash a \<noteq> []" by (rule split_slash_nonempty)
  define S where "S = split_slash a"
  have neS: "S \<noteq> []" unfolding S_def by (rule ne)
  have ih: "split_slash (a @ v) = butlast S @ [last S @ v]" unfolding S_def by (rule Cons.IH)
  show ?case
  proof (cases "c = CHR ''/''")
    case True
    have "split_slash ((c # a) @ v) = [] # butlast S @ [last S @ v]"
      using True ih by (simp only: append_Cons split_slash_Cons if_True simp_thms)
    moreover have "split_slash (c # a) = [] # S"
      using True unfolding S_def by (simp only: split_slash_Cons if_True simp_thms)
    ultimately show ?thesis using neS by simp
  next
    case False
    have "split_slash ((c # a) @ v) = (c # hd (butlast S @ [last S @ v])) # tl (butlast S @ [last S @ v])"
      using False ih by (simp only: append_Cons split_slash_Cons if_False)
    moreover have sc: "split_slash (c # a) = (c # hd S) # tl S"
      using False unfolding S_def by (simp only: split_slash_Cons if_False)
    ultimately show ?thesis
    proof (cases "tl S = []")
      case True
      with neS have "S = [hd S]" by (cases S) simp_all
      then obtain x where S: "S = [x]" by blast
      from \<open>split_slash ((c # a) @ v) = _\<close> sc show ?thesis unfolding S by simp
    next
      case tlne: False
      then obtain x y ys where S: "S = x # y # ys" using neS
        by (cases S; cases "tl S") auto
      from \<open>split_slash ((c # a) @ v) = _\<close> sc show ?thesis unfolding S by simp
    qed
  qed
qed

lemma clean_elems_no_dotdot:
  "''..'' \<notin> set es \<Longrightarrow>
   clean_elems rooted es out = rev out @ filter (\<lambda>e. e \<noteq> [] \<and> e \<noteq> ''.'') es"
proof (induction es arbitrary: out)
  case Nil
  show ?case by simp
next
  case (Cons e es)
  then have nd: "''..'' \<notin> set es" and e: "e \<noteq> ''..''" by auto
  show ?case
  proof (cases "e = [] \<or> e = ''.''")
    case True
    then have "clean_elems rooted (e # es) out = clean_elems rooted es out"
      by (rule clean_elems_skip)
    with Cons.IH[OF nd, of out] True show ?thesis by auto
  next
    case False
    then have "clean_elems rooted (e # es) out = clean_elems rooted es (e # out)"
      using e by (intro clean_elems_push) auto
    with Cons.IH[OF nd, of "e # out"] False show ?thesis by auto
  qed
qed

lemma Join_slash_contains:
  "sublist (e @ ''/'') (strings_Join_slash (xs @ e # y # ys))"
proof (induction xs)
  case Nil
  have "strings_Join_slash (e # y # ys) = (e @ ''/'') @ strings_Join_slash (y # ys)"
    by (simp add: Join_slash_Cons)
  then show ?case by (simp only: append_Nil) (metis sublist_append_rightI)
next
  case (Cons x xs)
  have "strings_Join_slash ((x # xs) @ e # y # ys)
          = (x @ ''/'') @ strings_Join_slash (xs @ e # y # ys)"
    by (simp add: Join_slash_Cons)
  with Cons.IH show ?case by (metis sublist_append)
qed


lemma filepath_Join_keeps_scheme:
  assumes sch: "sublist (w @ ''://'') B" and w: "CHR ''/'' \<notin> set w"
    and N: "N \<noteq> []" "CHR ''/'' \<notin> set N" "N \<noteq> ''.''"
    and nodd: "''..'' \<notin> set (split_slash B)" "''..'' \<notin> set (split_slash I)"
      "''..'' \<notin> set (split_slash d)" "N \<noteq> ''..''"
  shows "sublist (w @ '':/'') (filepath_Join [B, I, d, N])"
proof -
  from sch obtain a b where B: "B = a @ (w @ ''://'') @ b" by (auto simp: sublist_def)
  then have Bne: "B \<noteq> []" by simp
  define J where "J = strings_Join_slash [B, I, d, N]"
  have J: "J = B @ CHR ''/'' # I @ CHR ''/'' # d @ CHR ''/'' # N"
    unfolding J_def by simp
  have Jne: "J \<noteq> []" using Bne J by simp
  have join: "filepath_Join [B, I, d, N] = filepath_Clean J"
    using Bne unfolding J_def filepath_Join_def by simp
  define P where "P = a @ w @ '':''"
  define Q where "Q = CHR ''/'' # b @ CHR ''/'' # I @ CHR ''/'' # d"
  have JPQ: "J = P @ CHR ''/'' # (Q @ CHR ''/'' # N)"
    unfolding J B P_def Q_def by simp
  have wc: "CHR ''/'' \<notin> set (w @ '':'')" using w by simp
  define e1 where "e1 = last (split_slash a) @ w @ '':''"
  have sP: "split_slash P = butlast (split_slash a) @ [e1]"
    unfolding P_def e1_def using split_slash_append_tail[OF wc, of a] by simp
  have sN: "split_slash N = [N]" using N(2) by (rule split_slash_single)
  have E: "split_slash J = butlast (split_slash a) @ e1 # (split_slash Q @ [N])"
    unfolding JPQ split_slash_append_slash sP sN by simp
  have EB: "split_slash J = split_slash B @ split_slash I @ split_slash d @ split_slash N"
    unfolding J split_slash_append_slash by simp
  have nd: "''..'' \<notin> set (split_slash J)"
    unfolding EB using nodd sN by simp
  have le1: "last e1 = CHR '':''" and ne1: "e1 \<noteq> []" unfolding e1_def by simp_all
  have ke1: "e1 \<noteq> [] \<and> e1 \<noteq> ''.''"
    using le1 ne1 by auto
  have kN: "N \<noteq> [] \<and> N \<noteq> ''.''" using N by simp
  define keep where "keep = (\<lambda>e::string. e \<noteq> [] \<and> e \<noteq> ''.'')"
  have out: "clean_elems rooted (split_slash J) []
      = filter keep (butlast (split_slash a)) @ e1 # N # [] @ []
      \<or> (\<exists>y ys. clean_elems rooted (split_slash J) []
             = filter keep (butlast (split_slash a)) @ e1 # y # ys)" for rooted
  proof -
    have "clean_elems rooted (split_slash J) [] = filter keep (split_slash J)"
      using clean_elems_no_dotdot[OF nd, of rooted "[]"] unfolding keep_def by simp
    also have "\<dots> = filter keep (butlast (split_slash a)) @ e1 # (filter keep (split_slash Q) @ [N])"
      unfolding E using ke1 kN by (simp add: keep_def)
    finally have *: "clean_elems rooted (split_slash J) []
      = filter keep (butlast (split_slash a)) @ e1 # (filter keep (split_slash Q) @ [N])" .
    show ?thesis
    proof (cases "filter keep (split_slash Q)")
      case Nil
      with * show ?thesis by simp
    next
      case (Cons y ys)
      with * show ?thesis by simp
    qed
  qed
  have cont: "sublist (e1 @ ''/'') (strings_Join_slash (clean_elems rooted (split_slash J) []))"
    and ne: "clean_elems rooted (split_slash J) [] \<noteq> []" for rooted
  proof -
    from out[of rooted] obtain y ys where
      o: "clean_elems rooted (split_slash J) [] = filter keep (butlast (split_slash a)) @ e1 # y # ys"
      by auto
    show "sublist (e1 @ ''/'') (strings_Join_slash (clean_elems rooted (split_slash J) []))"
      unfolding o by (rule Join_slash_contains)
    show "clean_elems rooted (split_slash J) [] \<noteq> []" unfolding o by simp
  qed
  have "sublist (w @ '':/'') (e1 @ ''/'')"
  proof -
    have "e1 @ ''/'' = last (split_slash a) @ (w @ '':/'') @ []" unfolding e1_def by simp
    then show ?thesis by (metis sublist_appendI)
  qed
  then have c2: "sublist (w @ '':/'') (strings_Join_slash (clean_elems rooted (split_slash J) []))"
    for rooted
    using cont[of rooted] sublist_order.order.trans by blast
  have "sublist (w @ '':/'') (filepath_Clean J)"
  proof (cases "hd J = CHR ''/''")
    case True
    then have "filepath_Clean J = CHR ''/'' # strings_Join_slash (clean_elems True (split_slash J) [])"
      using filepath_Clean_nonempty[OF Jne] by simp
    with c2[of True] show ?thesis by (simp add: sublist_Cons_right del: clean_elems.simps)
  next
    case False
    then have "filepath_Clean J = strings_Join_slash (clean_elems False (split_slash J) [])"
      using filepath_Clean_nonempty[OF Jne] ne[of False] by simp
    with c2[of False] show ?thesis by simp
  qed
  then show ?thesis unfolding join .
qed


lemma ExtractImageData_Name:
  "\<exists>stem. images (ExtractImageData L imageInfo m) = images m @ [imageInfo\<lparr>Name := stem @ ''.jpg''\<rparr>]
          \<and> CHR ''/'' \<notin> set stem"
proof -
  define name where "name = SanitizeFilename (unicode_table L) (OrigName imageInfo)"
  define stem where "stem = take (length name - length (filepath_Ext name)) name"
  have "CHR ''/'' \<notin> set name"
  proof
    assume "CHR ''/'' \<in> set name"
    then have "word_or_dot (byte CHR ''/'')"
      unfolding name_def SanitizeFilename_def using ReplaceAll_nonword_chars by blast
    then show False by (simp add: word_or_dot_def byte_def)
  qed
  then have "CHR ''/'' \<notin> set stem" unfolding stem_def by (auto dest: in_set_takeD)
  moreover have "images (ExtractImageData L imageInfo m) = images m @ [imageInfo\<lparr>Name := stem @ ''.jpg''\<rparr>]"
    by (simp add: ExtractImageData_def Let_def stem_def name_def)
  ultimately show ?thesis by blast
qed

section \<open>Properties of materialization\<close>

lemma SaveImage_Inr:
  assumes "SaveImage L m relatedPost imageInfo tr = Inr (img, tr')"
  defines "d \<equiv> MakeDatePathPart L m (Date relatedPost)"
  defines "dir \<equiv> MakePathFromTemplate (ImageDir (config m)) \<lparr>pp_Date = d, pp_Type = []\<rparr>"
  shows "img = imageInfo\<lparr>Path := filepath_Join [dir, Name imageInfo],
                         URL := filepath_Join [BaseURL (config m), ImagePath (config m), d, Name imageInfo]\<rparr>"
    and "tr' = tr @ [Directory dir, JpegFile (filepath_Join [dir, Name imageInfo]), Log ''Saved image'']"
    and "os_MkdirAll L dir" and "image_Decode L (Data imageInfo) \<noteq> None"
    and "os_Create L (filepath_Join [dir, Name imageInfo])"
  using assms(1) unfolding d_def dir_def
  by (auto simp: SaveImage_def Let_def split: if_splits option.splits)

lemma match_image_Inr:
  assumes hit: "OrigName (images m ! j) = loc \<or> OrigURL (images m ! j) = loc"
    and run: "match_image L p loc j (m, tr) = Inr (m', tr')"
  obtains img where "SaveImage L m (posts m ! p) (images m ! j) tr = Inr (img, tr')"
    and "m' = m\<lparr>images := (images m)[j := img],
                 posts := (posts m)[p := (posts m ! p)\<lparr>PostData :=
                    strings_Replace1 (PostData (posts m ! p)) loc (URL img)\<rparr>]\<rparr>"
  using assms by (auto simp: match_image_def Let_def split: sum.splits)

lemma SaveImage_undecodable_aborts:
  "image_Decode L (Data imageInfo) = None \<Longrightarrow>
   SaveImage L m relatedPost imageInfo tr = Inl (Fatal ''Couldn't make image path'')
   \<or> SaveImage L m relatedPost imageInfo tr = Inl (Panic ''nil pointer dereference'')"
  by (simp add: SaveImage_def Let_def)

lemma ExtractPostData_parsed:
  assumes "yaml_Unmarshal L post = Some t"
    and "ExtractPostData L post (m, tr) = Inr (m', tr')"
  shows "\<exists>p. posts m' = posts m @ [p] \<and> Title p = T_Title t
             \<and> File p = SanitizeFilename (unicode_table L) (T_Title t) @ ''.md''"
  using assms
  by (auto simp: ExtractPostData_def Let_def split: sum.splits)

lemma ExtractPostData_unparsed:
  "yaml_Unmarshal L post = None \<Longrightarrow>
   ExtractPostData L post (m, tr)
     = Inr (m, tr @ [Log ''Couldn't find post title in frontmatter. Skipping...''])"
  by (simp add: ExtractPostData_def)

lemma fetch_urls_stops:
  "http_Get L u = Some r \<Longrightarrow> StatusCode r \<noteq> 200 \<Longrightarrow>
   fetch_urls L (u # us) (m, tr) = Inr (True, (m, tr @ [Log u, Log ''Error'']))"
  by simp

lemma example_SaveImage:
  "SaveImage example_lib (fst (example_state [] [])) (example_post ''2015-06-01'' ''x'') (example_image ''JPEG'') []
   = Inr (\<lparr>OrigURL = [], OrigName = ''Apple.JPG'', Name = ''apple.jpg'',
            Path = ''/site/static/<type>/2015/06/apple.jpg'',
            URL = ''http:/example.com/media/2015/06/apple.jpg'', Data = ''JPEG''\<rparr>,
          [Directory ''/site/static/<type>/2015/06'', JpegFile ''/site/static/<type>/2015/06/apple.jpg'',
           Log ''Saved image''])"
  by (simp add: SaveImage_def example_lib_def example_state_def example_post_def example_image_def
      example_config_def MakeDatePathPart_def MakePathFromTemplate_def filepath_Join_def
      filepath_Clean_def)

section \<open>The path templater\<close>

text \<open>
  Claim C7, as the code has it.  \<open>MakePathFromTemplate\<close> first replaces the first
  occurrence of \<open><type>\<close> in the template (when the type is not empty and the token
  occurs) by the type without its leading and trailing space characters, giving \<open>t1\<close>;
  then it replaces the first occurrence of \<open><date>\<close> in \<open>t1\<close> (when the date is not
  empty and the token occurs) by the date.  Each token is replaced at most once, the rest
  of the string is kept.  Applied to a string that holds neither token, it returns the
  string unchanged.  Only the space character U+0020 is trimmed from the type: tabs and
  newlines stay.
\<close>

theorem MakePathFromTemplate_type_then_date:
  "\<exists>t1.
     (if pp_Type pd \<noteq> [] \<and> sublist ''<type>'' tpl
      then \<exists>pre suf. tpl = pre @ ''<type>'' @ suf
             \<and> (\<forall>pre' suf'. tpl = pre' @ ''<type>'' @ suf' \<longrightarrow> length pre \<le> length pre')
             \<and> t1 = pre @ strings_Trim_space (pp_Type pd) @ suf
      else t1 = tpl)
     \<and> (if pp_Date pd \<noteq> [] \<and> sublist ''<date>'' t1
        then \<exists>pre suf. t1 = pre @ ''<date>'' @ suf
               \<and> (\<forall>pre' suf'. t1 = pre' @ ''<date>'' @ suf' \<longrightarrow> length pre \<le> length pre')
               \<and> MakePathFromTemplate tpl pd = pre @ pp_Date pd @ suf
        else MakePathFromTemplate tpl pd = t1)
     \<and> (\<forall>r pd'. \<not> sublist ''<type>'' r \<and> \<not> sublist ''<date>'' r
            \<longrightarrow> MakePathFromTemplate r pd' = r)"
proof -
  define t1 where "t1 = (if pp_Type pd \<noteq> []
                then strings_Replace1 tpl ''<type>'' (strings_Trim_space (pp_Type pd))
                else tpl)"
  have res: "MakePathFromTemplate tpl pd =
               (if pp_Date pd \<noteq> [] then strings_Replace1 t1 ''<date>'' (pp_Date pd) else t1)"
    by (simp add: MakePathFromTemplate_def t1_def Let_def)
  have a: "if pp_Type pd \<noteq> [] \<and> sublist ''<type>'' tpl
      then \<exists>pre suf. tpl = pre @ ''<type>'' @ suf
             \<and> (\<forall>pre' suf'. tpl = pre' @ ''<type>'' @ suf' \<longrightarrow> length pre \<le> length pre')
             \<and> t1 = pre @ strings_Trim_space (pp_Type pd) @ suf
      else t1 = tpl"
  proof (cases "pp_Type pd \<noteq> [] \<and> sublist ''<type>'' tpl")
    case True
    then show ?thesis
      using strings_Replace1_first[of "''<type>''" tpl "strings_Trim_space (pp_Type pd)"]
      by (simp add: t1_def)
  next
    case False
    then show ?thesis by (auto simp: t1_def strings_Replace1_absent)
  qed
  have b: "if pp_Date pd \<noteq> [] \<and> sublist ''<date>'' t1
        then \<exists>pre suf. t1 = pre @ ''<date>'' @ suf
               \<and> (\<forall>pre' suf'. t1 = pre' @ ''<date>'' @ suf' \<longrightarrow> length pre \<le> length pre')
               \<and> MakePathFromTemplate tpl pd = pre @ pp_Date pd @ suf
        else MakePathFromTemplate tpl pd = t1"
  proof (cases "pp_Date pd \<noteq> [] \<and> sublist ''<date>'' t1")
    case True
    then show ?thesis
      using strings_Replace1_first[of "''<date>''" t1 "pp_Date pd"]
      by (simp add: res)
  next
    case False
    then show ?thesis by (auto simp: res strings_Replace1_absent)
  qed
  have c: "\<forall>r pd'. \<not> sublist ''<type>'' r \<and> \<not> sublist ''<date>'' r
            \<longrightarrow> MakePathFromTemplate r pd' = r"
    by (simp add: MakePathFromTemplate_def Let_def strings_Replace1_absent)
  from a b c show ?thesis by blast
qed

text \<open>A witness for C7: with the type \<open><date>\<close> the date lands in the place of the
  first \<open><type>\<close>, which shows the order; a finished path is a fixed point.\<close>

theorem MakePathFromTemplate_type_then_date_witness:
  "MakePathFromTemplate ''/p/<type>/<date>/<type>/<date>'' \<lparr>pp_Date = ''2015/06'', pp_Type = '' <date> ''\<rparr>
     = ''/p/2015/06/<date>/<type>/<date>''
   \<and> \<not> sublist ''<type>'' ''/p/note/2015/06'' \<and> \<not> sublist ''<date>'' ''/p/note/2015/06''
   \<and> MakePathFromTemplate ''/p/note/2015/06'' \<lparr>pp_Date = ''2015/06'', pp_Type = '' note ''\<rparr>
     = ''/p/note/2015/06''"
proof -
  have h: "\<not> sublist ''<type>'' ''/p/note/2015/06'' \<and> \<not> sublist ''<date>'' ''/p/note/2015/06''"
    by (simp add: sublist_Cons_right)
  have e: "MakePathFromTemplate ''/p/<type>/<date>/<type>/<date>'' \<lparr>pp_Date = ''2015/06'', pp_Type = '' <date> ''\<rparr>
     = ''/p/2015/06/<date>/<type>/<date>''"
    by (simp add: MakePathFromTemplate_def strings_Trim_space_def)
  from MakePathFromTemplate_type_then_date[of "\<lparr>pp_Date = ''2015/06'', pp_Type = '' <date> ''\<rparr>" "''/p/<type>/<date>/<type>/<date>''"]
  have "\<forall>r pd'. \<not> sublist ''<type>'' r \<and> \<not> sublist ''<date>'' r
            \<longrightarrow> MakePathFromTemplate r pd' = r" by blast
  with h e show ?thesis by blast
qed

text \<open>C7 as stated speaks of the whitespace-trimmed type; a leading tab is kept.\<close>

theorem MakePathFromTemplate_tab_counterexample:
  "MakePathFromTemplate ''<type>'' \<lparr>pp_Date = [], pp_Type = CHR 0x09 # ''note''\<rparr> = CHR 0x09 # ''note''
   \<and> MakePathFromTemplate ''<type>'' \<lparr>pp_Date = [], pp_Type = CHR 0x09 # ''note''\<rparr> \<noteq> ''note''"
  by (simp add: MakePathFromTemplate_def strings_Trim_space_def)

text \<open>
  Claim C9.  With an empty type the templater does what the date step alone does, and a
  \<open><type>\<close> of the template is still in the result; with an empty date it does what the
  type step alone does, and a \<open><date>\<close> of the template is still in the result.
  \<open>SaveImage\<close> calls the templater with the date only, so the directory of an image is
  the template \<open>ImageDir\<close> with at most its \<open><date>\<close> replaced, whatever the type of the
  post, and keeps a \<open><type>\<close> that \<open>ImageDir\<close> holds.
\<close>

theorem MakePathFromTemplate_empty_field:
  "(pp_Type pd = [] \<longrightarrow>
      MakePathFromTemplate tpl pd
        = (if pp_Date pd = [] then tpl else strings_Replace1 tpl ''<date>'' (pp_Date pd))
      \<and> (sublist ''<type>'' tpl \<longrightarrow> sublist ''<type>'' (MakePathFromTemplate tpl pd)))
   \<and> (pp_Date pd = [] \<longrightarrow>
      MakePathFromTemplate tpl pd
        = (if pp_Type pd = [] then tpl
           else strings_Replace1 tpl ''<type>'' (strings_Trim_space (pp_Type pd)))
      \<and> (sublist ''<date>'' tpl \<longrightarrow> sublist ''<date>'' (MakePathFromTemplate tpl pd)))
   \<and> (SaveImage L m relatedPost imageInfo tr = Inr (img, tr') \<longrightarrow>
      (let d = MakeDatePathPart L m (Date relatedPost);
           dir = (if d = [] then ImageDir (config m)
                  else strings_Replace1 (ImageDir (config m)) ''<date>'' d)
       in Path img = filepath_Join [dir, Name imageInfo]
          \<and> Directory dir \<in> set tr'
          \<and> (sublist ''<type>'' (ImageDir (config m)) \<longrightarrow> sublist ''<type>'' dir)))"
proof -
  have a: "pp_Type pd = [] \<Longrightarrow> MakePathFromTemplate tpl pd
        = (if pp_Date pd = [] then tpl else strings_Replace1 tpl ''<date>'' (pp_Date pd))"
    for tpl pd
    by (simp add: MakePathFromTemplate_def)
  have a': "pp_Type pd = [] \<Longrightarrow> sublist ''<type>'' tpl \<Longrightarrow> sublist ''<type>'' (MakePathFromTemplate tpl pd)"
    for tpl pd
    by (simp add: a type_token_survives_date)
  have b: "pp_Date pd = [] \<Longrightarrow> MakePathFromTemplate tpl pd
        = (if pp_Type pd = [] then tpl
           else strings_Replace1 tpl ''<type>'' (strings_Trim_space (pp_Type pd)))"
    by (simp add: MakePathFromTemplate_def)
  have b': "pp_Date pd = [] \<Longrightarrow> sublist ''<date>'' tpl \<Longrightarrow> sublist ''<date>'' (MakePathFromTemplate tpl pd)"
    by (simp add: b date_token_survives_type)
  have c: "(let d = MakeDatePathPart L m (Date relatedPost);
           dir = (if d = [] then ImageDir (config m)
                  else strings_Replace1 (ImageDir (config m)) ''<date>'' d)
       in Path img = filepath_Join [dir, Name imageInfo]
          \<and> Directory dir \<in> set tr'
          \<and> (sublist ''<type>'' (ImageDir (config m)) \<longrightarrow> sublist ''<type>'' dir))"
    if s: "SaveImage L m relatedPost imageInfo tr = Inr (img, tr')"
  proof -
    define d where "d = MakeDatePathPart L m (Date relatedPost)"
    define dir where "dir = MakePathFromTemplate (ImageDir (config m)) \<lparr>pp_Date = d, pp_Type = []\<rparr>"
    have dir: "dir = (if d = [] then ImageDir (config m)
                  else strings_Replace1 (ImageDir (config m)) ''<date>'' d)"
      unfolding dir_def by (simp add: a)
    have "Path img = filepath_Join [dir, Name imageInfo]"
      using SaveImage_Inr(1)[OF s] by (simp add: dir_def d_def)
    moreover have "Directory dir \<in> set tr'"
      using SaveImage_Inr(2)[OF s] by (simp add: dir_def d_def)
    moreover have "sublist ''<type>'' (ImageDir (config m)) \<longrightarrow> sublist ''<type>'' dir"
      unfolding dir_def by (simp add: a')
    ultimately show ?thesis
      unfolding dir[symmetric] d_def[symmetric] by (simp add: Let_def dir[symmetric])
  qed
  from a a' b b' c show ?thesis by blast
qed

text \<open>A witness for C9, on the template \<open>/img/<type>/<date>\<close> and on the example
  configuration, whose \<open>ImageDir\<close> holds \<open><type>\<close>.\<close>

theorem MakePathFromTemplate_empty_field_witness:
  "MakePathFromTemplate ''/img/<type>/<date>'' \<lparr>pp_Date = ''2015/06'', pp_Type = []\<rparr>
     = ''/img/<type>/2015/06''
   \<and> sublist ''<type>'' (MakePathFromTemplate ''/img/<type>/<date>'' \<lparr>pp_Date = ''2015/06'', pp_Type = []\<rparr>)
   \<and> MakePathFromTemplate ''/img/<type>/<date>'' \<lparr>pp_Date = [], pp_Type = ''note''\<rparr>
     = ''/img/note/<date>''
   \<and> sublist ''<date>'' (MakePathFromTemplate ''/img/<type>/<date>'' \<lparr>pp_Date = [], pp_Type = ''note''\<rparr>)
   \<and> Directory ''/site/static/<type>/2015/06''
       \<in> set [Directory ''/site/static/<type>/2015/06'',
               JpegFile ''/site/static/<type>/2015/06/apple.jpg'', Log ''Saved image'']
   \<and> sublist ''<type>'' ''/site/static/<type>/2015/06''"
proof -
  have t: "sublist ''<type>'' ''/img/<type>/<date>''" and d: "sublist ''<date>'' ''/img/<type>/<date>''"
    by (simp_all add: sublist_Cons_right)
  note a = MakePathFromTemplate_empty_field[of "\<lparr>pp_Date = ''2015/06'', pp_Type = []\<rparr>" "''/img/<type>/<date>''"]
  note b = MakePathFromTemplate_empty_field[of "\<lparr>pp_Date = [], pp_Type = ''note''\<rparr>" "''/img/<type>/<date>''"]
  have s: "SaveImage example_lib (fst (example_state [] [])) (example_post ''2015-06-01'' ''x'') (example_image ''JPEG'') []
   = Inr (\<lparr>OrigURL = [], OrigName = ''Apple.JPG'', Name = ''apple.jpg'',
            Path = ''/site/static/<type>/2015/06/apple.jpg'',
            URL = ''http:/example.com/media/2015/06/apple.jpg'', Data = ''JPEG''\<rparr>,
          [Directory ''/site/static/<type>/2015/06'', JpegFile ''/site/static/<type>/2015/06/apple.jpg'',
           Log ''Saved image''])"
    by (rule example_SaveImage)
  have i: "sublist ''<type>'' (ImageDir (config (fst (example_state [] []))))"
    by (simp add: example_state_def example_config_def sublist_Cons_right)
  have dd: "MakeDatePathPart example_lib (fst (example_state [] [])) (Date (example_post ''2015-06-01'' ''x'')) = ''2015/06''"
    by (simp add: MakeDatePathPart_def example_lib_def example_post_def)
  have r: "strings_Replace1 (ImageDir (config (fst (example_state [] [])))) ''<date>'' ''2015/06'' = ''/site/static/<type>/2015/06''"
    by (simp add: example_state_def example_config_def)
  from MakePathFromTemplate_empty_field[of _ _ example_lib "fst (example_state [] [])"
      "example_post ''2015-06-01'' ''x''" "example_image ''JPEG''" "[]"] s i
  have c: "Directory ''/site/static/<type>/2015/06''
       \<in> set [Directory ''/site/static/<type>/2015/06'',
               JpegFile ''/site/static/<type>/2015/06/apple.jpg'', Log ''Saved image'']
   \<and> sublist ''<type>'' ''/site/static/<type>/2015/06''"
    by (simp add: dd r Let_def)
  from a t have "MakePathFromTemplate ''/img/<type>/<date>'' \<lparr>pp_Date = ''2015/06'', pp_Type = []\<rparr>
     = ''/img/<type>/2015/06''
   \<and> sublist ''<type>'' (MakePathFromTemplate ''/img/<type>/<date>'' \<lparr>pp_Date = ''2015/06'', pp_Type = []\<rparr>)"
    by (simp add: sublist_Cons_right)
  moreover from b d have "MakePathFromTemplate ''/img/<type>/<date>'' \<lparr>pp_Date = [], pp_Type = ''note''\<rparr>
     = ''/img/note/<date>''
   \<and> sublist ''<date>'' (MakePathFromTemplate ''/img/<type>/<date>'' \<lparr>pp_Date = [], pp_Type = ''note''\<rparr>)"
    by (simp add: strings_Trim_space_def sublist_Cons_right)
  ultimately show ?thesis using c by blast
qed

section \<open>File name sanitization\<close>

text \<open>
  Claim C8, as the code has it.  The Unicode tables map no code point beyond ASCII to an
  ASCII capital letter; for every such table \<open>SanitizeFilename\<close> is idempotent, every
  character of its result is in \<open>[a-z0-9_.]\<close>, and the result is empty exactly when the
  name is: the result matches \<open>[a-z0-9_.]*\<close>, and \<open>[a-z0-9_.]+\<close> when the name is not
  empty.
\<close>

theorem SanitizeFilename_idempotent_lower:
  assumes "\<forall>r. 0x7F < r \<longrightarrow> \<not> (0x41 \<le> tbl r \<and> tbl r \<le> 0x5A)"
  shows "SanitizeFilename tbl (SanitizeFilename tbl x) = SanitizeFilename tbl x
         \<and> list_all class_lower (SanitizeFilename tbl x)
         \<and> (SanitizeFilename tbl x = [] \<longleftrightarrow> x = [])"
proof -
  have cl: "list_all class_lower (SanitizeFilename tbl x)"
    using assms by (rule SanitizeFilename_chars)
  from lower_class_fixed[OF cl, of tbl]
  have "SanitizeFilename tbl (SanitizeFilename tbl x) = SanitizeFilename tbl x"
    by (simp add: SanitizeFilename_def)
  with cl show ?thesis by (simp add: SanitizeFilename_empty)
qed

text \<open>A witness for C8, with a table that maps the Kelvin sign U+212A to \<open>k\<close>.\<close>

theorem SanitizeFilename_idempotent_lower_witness:
  "SanitizeFilename (\<lambda>r. if r = 0x212A then 0x6B else r) ''My Photo.JPG'' = ''my_photo.jpg''
   \<and> SanitizeFilename (\<lambda>r. if r = 0x212A then 0x6B else r) ''my_photo.jpg'' = ''my_photo.jpg''
   \<and> list_all class_lower ''my_photo.jpg''"
proof -
  have h: "\<forall>r. 0x7F < r \<longrightarrow> \<not> (0x41 \<le> (if r = 0x212A then 0x6B else r) \<and> (if r = (0x212A::nat) then 0x6B else r) \<le> (0x5A::nat))"
    by simp
  have e: "SanitizeFilename (\<lambda>r. if r = 0x212A then 0x6B else r) ''My Photo.JPG'' = ''my_photo.jpg''"
    by code_simp
  from SanitizeFilename_idempotent_lower[OF h, of "''My Photo.JPG''"] e show ?thesis
    by simp
qed

text \<open>C8 as stated has the result match \<open>[a-z0-9_.]+\<close> for every name; the empty name
  gives the empty result.\<close>

theorem SanitizeFilename_empty_counterexample:
  "\<not> (SanitizeFilename (\<lambda>r. r) [] \<noteq> [] \<and> list_all class_lower (SanitizeFilename (\<lambda>r. r) []))"
  by (simp add: SanitizeFilename_def strings_ToLower_def ReplaceAll_nonword_def)

section \<open>Resolving a reference\<close>

text \<open>
  Claim C6.  When image \<open>j\<close> has the captured locator as its \<open>OrigName\<close> or its
  \<open>OrigURL\<close> and the step does not abort, the body of post \<open>p\<close> after the step is its
  body before with the first occurrence of the locator replaced by the public URL of
  the image: what stands before and after that occurrence, later occurrences of the
  locator included, is unchanged.  A body without the locator stays as it is.  The
  public URL is the one \<open>SaveImage\<close> has just computed, and no other post changes.
\<close>

theorem match_image_replaces_first_occurrence:
  assumes hit: "OrigName (images m ! j) = loc \<or> OrigURL (images m ! j) = loc"
    and run: "match_image L p loc j (m, tr) = Inr (m', tr')"
    and p: "p < length (posts m)" and j: "j < length (images m)"
  shows "(if sublist loc (PostData (posts m ! p))
          then \<exists>pre suf. PostData (posts m ! p) = pre @ loc @ suf
                 \<and> (\<forall>pre' suf'. PostData (posts m ! p) = pre' @ loc @ suf'
                       \<longrightarrow> length pre \<le> length pre')
                 \<and> PostData (posts m' ! p) = pre @ URL (images m' ! j) @ suf
          else PostData (posts m' ! p) = PostData (posts m ! p))
         \<and> URL (images m' ! j)
             = filepath_Join [BaseURL (config m), ImagePath (config m),
                              MakeDatePathPart L m (Date (posts m ! p)), Name (images m ! j)]
         \<and> length (posts m') = length (posts m)
         \<and> (\<forall>q. q \<noteq> p \<longrightarrow> posts m' ! q = posts m ! q)"
proof -
  from hit run obtain img where
    s: "SaveImage L m (posts m ! p) (images m ! j) tr = Inr (img, tr')"
    and m': "m' = m\<lparr>images := (images m)[j := img],
                 posts := (posts m)[p := (posts m ! p)\<lparr>PostData :=
                    strings_Replace1 (PostData (posts m ! p)) loc (URL img)\<rparr>]\<rparr>"
    by (rule match_image_Inr)
  from m' j have img: "images m' ! j = img" by simp
  from m' p have body: "PostData (posts m' ! p)
      = strings_Replace1 (PostData (posts m ! p)) loc (URL img)" by simp
  have a: "if sublist loc (PostData (posts m ! p))
          then \<exists>pre suf. PostData (posts m ! p) = pre @ loc @ suf
                 \<and> (\<forall>pre' suf'. PostData (posts m ! p) = pre' @ loc @ suf'
                       \<longrightarrow> length pre \<le> length pre')
                 \<and> PostData (posts m' ! p) = pre @ URL (images m' ! j) @ suf
          else PostData (posts m' ! p) = PostData (posts m ! p)"
  proof (cases "sublist loc (PostData (posts m ! p))")
    case True
    from strings_Replace1_first[OF True, of "URL img"] True show ?thesis
      by (simp add: img body)
  next
    case False
    then show ?thesis by (simp add: body strings_Replace1_absent)
  qed
  have b: "URL (images m' ! j)
             = filepath_Join [BaseURL (config m), ImagePath (config m),
                              MakeDatePathPart L m (Date (posts m ! p)), Name (images m ! j)]"
    using SaveImage_Inr(1)[OF s] by (simp add: img)
  have c: "length (posts m') = length (posts m)"
    and d: "\<forall>q. q \<noteq> p \<longrightarrow> posts m' ! q = posts m ! q"
    using m' by simp_all
  from a b c d show ?thesis by blast
qed

text \<open>A witness for C6: the locator also stands in the alternative text, before the
  place where the pattern captured it, and it is this first occurrence that is
  replaced.\<close>

theorem match_image_replaces_first_occurrence_witness:
  "\<exists>pre suf. ''![Apple.JPG](Apple.JPG) and Apple.JPG'' = pre @ ''Apple.JPG'' @ suf
      \<and> (\<forall>pre' suf'. ''![Apple.JPG](Apple.JPG) and Apple.JPG'' = pre' @ ''Apple.JPG'' @ suf'
            \<longrightarrow> length pre \<le> length pre')
      \<and> ''![http:/example.com/media/2015/06/apple.jpg](Apple.JPG) and Apple.JPG''
          = pre @ ''http:/example.com/media/2015/06/apple.jpg'' @ suf"
proof -
  define m where "m = \<lparr>config = example_config, images = [example_image ''JPEG''],
       posts = [example_post ''2015-06-01'' ''![Apple.JPG](Apple.JPG) and Apple.JPG'']\<rparr>"
  define m' where "m' = \<lparr>config = example_config,
           images = [\<lparr>OrigURL = [], OrigName = ''Apple.JPG'', Name = ''apple.jpg'',
                      Path = ''/site/static/<type>/2015/06/apple.jpg'',
                      URL = ''http:/example.com/media/2015/06/apple.jpg'', Data = ''JPEG''\<rparr>],
           posts = [example_post ''2015-06-01''
                      ''![http:/example.com/media/2015/06/apple.jpg](Apple.JPG) and Apple.JPG'']\<rparr>"
  define tr' where "tr' = [Directory ''/site/static/<type>/2015/06'',
           JpegFile ''/site/static/<type>/2015/06/apple.jpg'', Log ''Saved image'']"
  have hit: "OrigName (images m ! 0) = ''Apple.JPG'' \<or> OrigURL (images m ! 0) = ''Apple.JPG''"
    by (simp add: m_def example_image_def)
  have run: "match_image example_lib 0 ''Apple.JPG'' 0 (m, []) = Inr (m', tr')"
    unfolding m_def m'_def tr'_def by code_simp
  have p: "0 < length (posts m)" and j: "0 < length (images m)" by (simp_all add: m_def)
  have occ: "sublist ''Apple.JPG'' (PostData (posts m ! 0))"
    by (simp add: m_def example_post_def sublist_Cons_right)
  have b: "PostData (posts m ! 0) = ''![Apple.JPG](Apple.JPG) and Apple.JPG''"
    and b': "PostData (posts m' ! 0)
               = ''![http:/example.com/media/2015/06/apple.jpg](Apple.JPG) and Apple.JPG''"
    and u: "URL (images m' ! 0) = ''http:/example.com/media/2015/06/apple.jpg''"
    by (simp_all add: m_def m'_def example_post_def)
  from match_image_replaces_first_occurrence[OF hit run p j]
  have "if sublist ''Apple.JPG'' (PostData (posts m ! 0))
          then \<exists>pre suf. PostData (posts m ! 0) = pre @ ''Apple.JPG'' @ suf
                 \<and> (\<forall>pre' suf'. PostData (posts m ! 0) = pre' @ ''Apple.JPG'' @ suf'
                       \<longrightarrow> length pre \<le> length pre')
                 \<and> PostData (posts m' ! 0) = pre @ URL (images m' ! 0) @ suf
          else PostData (posts m' ! 0) = PostData (posts m ! 0)"
    by (rule conjunct1)
  with occ have "\<exists>pre suf. PostData (posts m ! 0) = pre @ ''Apple.JPG'' @ suf
                 \<and> (\<forall>pre' suf'. PostData (posts m ! 0) = pre' @ ''Apple.JPG'' @ suf'
                       \<longrightarrow> length pre \<le> length pre')
                 \<and> PostData (posts m' ! 0) = pre @ URL (images m' ! 0) @ suf"
    by (simp only: if_True)
  then show ?thesis unfolding b b' u .
qed




section \<open>Failures\<close>

text \<open>
  Claim C2.  \<open>SaveImage\<close> logs a decoding error and goes on to read the bounds of the
  image, which is nil: the run ends in a panic instead of skipping the image.  Here the
  image of the example has no bytes; \<open>SaveImage\<close> panics, and so does
  \<open>ReplaceImageRefs\<close> on a post that refers to the image, before the post is written.
\<close>

theorem SaveImage_undecodable_panics:
  "SaveImage example_lib (fst (example_state [] []))
     (example_post ''2015-06-01'' ''![An apple](Apple.JPG)'') (example_image []) []
   = Inl (Panic ''nil pointer dereference'')
   \<and> ReplaceImageRefs example_lib
       (example_state [example_image []]
          [example_post ''2015-06-01'' ''![An apple](Apple.JPG)''])
     = Inl (Panic ''nil pointer dereference'')"
  by code_simp

text \<open>
  Claim C3.  \<open>ExtractPostData\<close> returns early only when \<open>yaml.Unmarshal\<close> fails; it never
  looks at the title.  Front matter that parses and has no title becomes a post with the
  empty title and the file name \<open>.md\<close>, and \<open>ReplaceImageRefs\<close> writes that file.
\<close>

theorem ExtractPostData_keeps_untitled_post:
  "ExtractPostData example_lib ''date: 2015-06-01'' (example_state [] [])
   = Inr (\<lparr>config = example_config, images = [],
           posts = [\<lparr>Title = [], Date = ''2015-06-01'', Type = [], File = ''.md'',
                     PostPath = ''/site/content//2015/06'', PostURL = [],
                     PostData = ''date: 2015-06-01''\<rparr>]\<rparr>,
          [Directory ''/site/content//2015/06''])
   \<and> andThen (ExtractPostData example_lib ''date: 2015-06-01'' (example_state [] []))
        (ReplaceImageRefs example_lib)
     = Inr (\<lparr>config = example_config, images = [],
             posts = [\<lparr>Title = [], Date = ''2015-06-01'', Type = [], File = ''.md'',
                       PostPath = ''/site/content//2015/06'', PostURL = [],
                       PostData = ''date: 2015-06-01''\<rparr>]\<rparr>,
            [Directory ''/site/content//2015/06'',
             PostFile ''/site/content/2015/06/.md'' ''date: 2015-06-01'', Log ''Saved post''])"
  by code_simp

text \<open>
  Claim C4.  The first address that does not answer 200 makes \<open>RetrieveImages\<close> return:
  the second address of the same post and the address of the next post are never
  fetched, although that next post alone yields its image.
\<close>

theorem RetrieveImages_stops_at_first_failure:
  "RetrieveImages example_lib
     (example_state []
        [example_post ''2015-06-01''
           (''![a](http://x.org/missing.png)'' @ [CHR 0x0A] @ ''![b](http://x.org/b.png)''),
         example_post ''2015-06-02'' ''![c](http://x.org/c.png)''])
   = Inr (\<lparr>config = example_config, images = [],
           posts = [example_post ''2015-06-01''
                      (''![a](http://x.org/missing.png)'' @ [CHR 0x0A] @ ''![b](http://x.org/b.png)''),
                    example_post ''2015-06-02'' ''![c](http://x.org/c.png)'']\<rparr>,
          [Log ''http://x.org/missing.png'', Log ''Error''])
   \<and> RetrieveImages example_lib
       (example_state [] [example_post ''2015-06-02'' ''![c](http://x.org/c.png)''])
     = Inr (\<lparr>config = example_config,
             images = [\<lparr>OrigURL = ''http://x.org/c.png'', OrigName = ''c.png'',
                        Name = ''c.jpg'', Path = [], URL = [], Data = ''PNG''\<rparr>],
             posts = [example_post ''2015-06-02'' ''![c](http://x.org/c.png)'']\<rparr>,
            [Log ''http://x.org/c.png''])"
  by code_simp

text \<open>
  Claim C5.  A part that cannot be read and a text body that cannot be copied end the
  run with \<open>log.Fatalf\<close>; the error of the base64 reader is assigned and never tested,
  so an image whose body is not base64 is kept with the bytes decoded before the error.
\<close>

theorem ExtractAttachment_keeps_undecodable_image:
  "ExtractAttachment example_lib
     [NextPart (Part ''image/png'' ''a.png'' [] (''PN'', True) ([], False))]
     (example_state [] [])
   = Inr (\<lparr>config = example_config,
           images = [\<lparr>OrigURL = [], OrigName = ''a.png'', Name = ''a.jpg'', Path = [],
                      URL = [], Data = ''PN''\<rparr>],
           posts = []\<rparr>, [])
   \<and> ExtractAttachment example_lib
       [NextPart (Part ''text/plain'' [] [] ([], False) (''title: Apples'', True))]
       (example_state [] [])
     = Inl (Fatal ''Error copying body of post to buffer'')
   \<and> ExtractAttachment example_lib [NextError] (example_state [] [])
     = Inl (Fatal ''Error parsing part'')"
  by code_simp

section \<open>The public URL\<close>

text \<open>
  Claim C10, as the code has it.  The public URL of a materialized image is
  \<open>filepath.Join(BaseURL, ImagePath, datePathPart, Name)\<close>.  \<open>Join\<close> cleans the path, so
  the URL never holds two slashes in a row, and so never \<open>://\<close>.  \<open>Clean\<close> also resolves
  \<open>..\<close>: when no element of \<open>BaseURL\<close>, \<open>ImagePath\<close> and the date part is \<open>..\<close> and the
  name is a file name ending in \<open>.jpg\<close> (as every name \<open>ExtractImageData\<close> makes is, see
  \<open>ExtractImageData_Name\<close>), a \<open>BaseURL\<close> that holds \<open>scheme://\<close> gives a URL that holds
  \<open>scheme:/\<close>, for \<open>http\<close> as for every scheme without a slash.
\<close>

theorem SaveImage_URL_single_slash:
  assumes "SaveImage L m relatedPost imageInfo tr = Inr (img, tr')"
  shows "URL img = filepath_Join [BaseURL (config m), ImagePath (config m),
                                  MakeDatePathPart L m (Date relatedPost), Name imageInfo]
         \<and> \<not> sublist ''//'' (URL img)
         \<and> \<not> sublist ''://'' (URL img)
         \<and> (sublist (scheme @ ''://'') (BaseURL (config m)) \<and> CHR ''/'' \<notin> set scheme
              \<and> Name imageInfo = stem @ ''.jpg'' \<and> CHR ''/'' \<notin> set stem
              \<and> ''..'' \<notin> set (split_slash (BaseURL (config m)))
              \<and> ''..'' \<notin> set (split_slash (ImagePath (config m)))
              \<and> ''..'' \<notin> set (split_slash (MakeDatePathPart L m (Date relatedPost)))
            \<longrightarrow> sublist (scheme @ '':/'') (URL img))"
proof -
  define d where "d = MakeDatePathPart L m (Date relatedPost)"
  have u: "URL img = filepath_Join [BaseURL (config m), ImagePath (config m), d, Name imageInfo]"
    using SaveImage_Inr(1)[OF assms] by (simp add: d_def)
  have a: "\<not> sublist ''//'' (URL img)" unfolding u by (rule filepath_Join_no_double_slash)
  then have b: "\<not> sublist ''://'' (URL img)" using scheme_separator_has_double_slash by blast
  have c: "sublist (scheme @ '':/'') (URL img)"
    if h: "sublist (scheme @ ''://'') (BaseURL (config m))" "CHR ''/'' \<notin> set scheme"
      "Name imageInfo = stem @ ''.jpg''" "CHR ''/'' \<notin> set stem"
      "''..'' \<notin> set (split_slash (BaseURL (config m)))"
      "''..'' \<notin> set (split_slash (ImagePath (config m)))"
      "''..'' \<notin> set (split_slash d)"
  proof -
    have n: "Name imageInfo \<noteq> []" "CHR ''/'' \<notin> set (Name imageInfo)"
      "Name imageInfo \<noteq> ''.''" "Name imageInfo \<noteq> ''..''"
      using h(3,4) by (auto simp: append_eq_Cons_conv)
    show ?thesis unfolding u
      by (rule filepath_Join_keeps_scheme[OF h(1,2) n(1,2,3) h(5,6,7) n(4)])
  qed
  from u a b c show ?thesis unfolding d_def by blast
qed

text \<open>A witness for C10, on the example configuration with \<open>BaseURL\<close>
  \<open>http://example.com\<close>.\<close>

theorem SaveImage_URL_single_slash_witness:
  "\<not> sublist ''//'' ''http:/example.com/media/2015/06/apple.jpg''
   \<and> \<not> sublist ''://'' ''http:/example.com/media/2015/06/apple.jpg''
   \<and> sublist ''http:/'' ''http:/example.com/media/2015/06/apple.jpg''"
proof -
  define m where "m = fst (example_state [] [])"
  define post where "post = example_post ''2015-06-01'' ''x''"
  define img where "img = \<lparr>OrigURL = [], OrigName = ''Apple.JPG'', Name = ''apple.jpg'',
            Path = ''/site/static/<type>/2015/06/apple.jpg'',
            URL = ''http:/example.com/media/2015/06/apple.jpg'', Data = ''JPEG''\<rparr>"
  have s: "SaveImage example_lib m post (example_image ''JPEG'') []
   = Inr (img,
          [Directory ''/site/static/<type>/2015/06'', JpegFile ''/site/static/<type>/2015/06/apple.jpg'',
           Log ''Saved image''])"
    unfolding m_def post_def img_def by (rule example_SaveImage)
  have h: "sublist (''http'' @ ''://'') (BaseURL (config m)) \<and> CHR ''/'' \<notin> set ''http''
              \<and> Name (example_image ''JPEG'') = ''apple'' @ ''.jpg'' \<and> CHR ''/'' \<notin> set ''apple''
              \<and> ''..'' \<notin> set (split_slash (BaseURL (config m)))
              \<and> ''..'' \<notin> set (split_slash (ImagePath (config m)))
              \<and> ''..'' \<notin> set (split_slash (MakeDatePathPart example_lib m (Date post)))"
    unfolding m_def post_def by code_simp
  have u: "URL img = ''http:/example.com/media/2015/06/apple.jpg''" by (simp add: img_def)
  note t = SaveImage_URL_single_slash[OF s, of "''http''" "''apple''"]
  from t have a: "\<not> sublist ''//'' (URL img)" and b: "\<not> sublist ''://'' (URL img)" by blast+
  from t h have c: "sublist (''http'' @ '':/'') (URL img)" by blast
  from a b c show ?thesis unfolding u by simp
qed

text \<open>C10 as stated has the URL hold \<open>http:/\<close> for every \<open>BaseURL\<close> with \<open>http://\<close>; with the
  \<open>ImagePath\<close> \<open>../..\<close> the scheme and the host are cleaned away.\<close>

theorem SaveImage_URL_dotdot_counterexample:
  "SaveImage example_lib
     \<lparr>config = example_config\<lparr>ImagePath := ''../..''\<rparr>, images = [], posts = []\<rparr>
     (example_post ''2015-06-01'' ''![An apple](Apple.JPG)'') (example_image ''JPEG'') []
   = Inr (\<lparr>OrigURL = [], OrigName = ''Apple.JPG'', Name = ''apple.jpg'',
            Path = ''/site/static/<type>/2015/06/apple.jpg'',
            URL = ''2015/06/apple.jpg'', Data = ''JPEG''\<rparr>,
          [Directory ''/site/static/<type>/2015/06'',
           JpegFile ''/site/static/<type>/2015/06/apple.jpg'', Log ''Saved image''])
   \<and> sublist ''http://'' (BaseURL (example_config\<lparr>ImagePath := ''../..''\<rparr>))
   \<and> \<not> sublist ''http:/'' ''2015/06/apple.jpg''"
  by code_simp

end
